theory Spec2Isabelle
  imports Complex_Main "HOL-Library.AList" "HOL-Library.Product_Lexorder"
begin

section \<open>The crawler of the Tuebingen search engine (src/crawler/crawl.py)\<close>

text \<open>
  The crawl orchestration of \<^verbatim>\<open>crawler/crawl.py\<close> is embedded as pure functions over an
  explicit crawler state. Library code the crawler calls (httpx URL parsing, lxml, the
  compiled regular expressions, MD5, the clock and the random generator) is passed in as
  parameters, so every theorem holds for whatever these functions compute.
\<close>

subsection \<open>crawler/types.py\<close>

datatype Priority = high | low

text \<open>\<^verbatim>\<open>Priority.high = 1\<close>, \<^verbatim>\<open>Priority.low = 0\<close>; the frontier stores \<^verbatim>\<open>priority.value\<close>.\<close>

fun Priority_value :: "Priority \<Rightarrow> int" where
  "Priority_value high = 1"
| "Priority_value low = 0"

datatype Status = pending | completed | failed

subsection \<open>httpx.URL\<close>

text \<open>
  An \<^verbatim>\<open>httpx.URL\<close> is held by its parsed components. \<^verbatim>\<open>query\<close> and \<^verbatim>\<open>fragment\<close> are
  \<open>None\<close> when the URL has no \<^verbatim>\<open>?\<close> or \<^verbatim>\<open>#\<close> part. \<^verbatim>\<open>copy_with\<close> replaces the named
  components and keeps the others; httpx turns the keyword \<^verbatim>\<open>params\<close> (the query
  parameters) into the \<^verbatim>\<open>query\<close> component, \<^verbatim>\<open>params=None\<close> giving \<^verbatim>\<open>query=None\<close>.
\<close>

record URL =
  scheme :: string
  userinfo :: string
  host :: string
  port :: "nat option"
  path :: string
  query :: "string option"
  fragment :: "string option"

definition digit_char :: "nat \<Rightarrow> char" where
  "digit_char n = char_of (48 + n)"

function str_nat :: "nat \<Rightarrow> string" where
  "str_nat n = (if n < 10 then [digit_char n] else str_nat (n div 10) @ [digit_char (n mod 10)])"
  by pat_completeness auto
termination
  by (relation "measure id") auto

declare str_nat.simps [simp del]

definition authority :: "URL \<Rightarrow> string" where
  "authority u =
     (if userinfo u \<noteq> [] then userinfo u @ ''@'' else []) @
     (if CHR '':'' \<in> set (host u) then ''['' @ host u @ '']'' else host u) @
     (case port u of None \<Rightarrow> [] | Some p \<Rightarrow> '':'' @ str_nat p)"

text \<open>\<^verbatim>\<open>str(url)\<close>: the components joined back into one string.\<close>

definition str_URL :: "URL \<Rightarrow> string" where
  "str_URL u =
     (if scheme u \<noteq> [] then scheme u @ '':'' else []) @
     (if authority u \<noteq> [] then ''//'' @ authority u else []) @
     path u @
     (case query u of None \<Rightarrow> [] | Some q \<Rightarrow> ''?'' @ q) @
     (case fragment u of None \<Rightarrow> [] | Some f \<Rightarrow> ''#'' @ f)"

definition is_absolute_url :: "URL \<Rightarrow> bool" where
  "is_absolute_url u \<longleftrightarrow> scheme u \<noteq> [] \<and> host u \<noteq> []"

definition is_relative_url :: "URL \<Rightarrow> bool" where
  "is_relative_url u \<longleftrightarrow> \<not> is_absolute_url u"

subsection \<open>Library functions and configuration\<close>

text \<open>
  What the crawler reads from a parsed document: \<^verbatim>\<open>tree.text_content()\<close>,
  \<^verbatim>\<open>tree.xpath("//html/@lang")\<close> and \<^verbatim>\<open>tree.xpath("//a/@href")\<close>.
\<close>

record HtmlElement =
  text_content :: string
  html_lang :: "string list"
  a_href :: "string list"

text \<open>
  The functions of other libraries that the crawler calls. \<open>Timestamp_now\<close> and
  \<open>random_random\<close> are indexed by the number of clock and random reads made so far, kept
  in the crawler state. \<open>URL_of_str\<close> is the constructor \<^verbatim>\<open>URL(s)\<close>, \<open>None\<close> where it raises
  \<^verbatim>\<open>InvalidURL\<close>; \<open>html_fromstring\<close> is \<open>None\<close> where lxml raises \<^verbatim>\<open>ParserError\<close>.
\<close>

record Externals =
  md5_hexdigest :: "string \<Rightarrow> string"
  Timestamp_now :: "nat \<Rightarrow> nat"
  random_random :: "nat \<Rightarrow> real"
  TUBINGEN_PATTERN_search :: "string \<Rightarrow> bool"
  ENGLISH_PATTERN_search :: "string \<Rightarrow> bool"
  str_strip :: "string \<Rightarrow> string"
  str_lower :: "string \<Rightarrow> string"
  html_fromstring :: "string \<Rightarrow> HtmlElement option"
  URL_of_str :: "string \<Rightarrow> URL option"
  URL_join :: "URL \<Rightarrow> URL \<Rightarrow> URL"

text \<open>
  \<^verbatim>\<open>CrawlerConfig\<close> (crawler/config.py). Each denied domain is a compiled pattern, held
  by its \<^verbatim>\<open>search\<close> predicate on the host.
\<close>

record CrawlerConfig =
  batch_size :: int
  max_depth :: int
  max_filesize :: int
  denied_domains :: "(string \<Rightarrow> bool) list"

subsection \<open>URL helpers of the crawler\<close>

fun split_on :: "char \<Rightarrow> string \<Rightarrow> string list" where
  "split_on c [] = [[]]"
| "split_on c (x # xs) =
     (if x = c then [] # split_on c xs
      else (case split_on c xs of [] \<Rightarrow> [[x]] | w # ws \<Rightarrow> (x # w) # ws))"

fun join_with :: "string \<Rightarrow> string list \<Rightarrow> string" where
  "join_with sep [] = []"
| "join_with sep [w] = w"
| "join_with sep (w # ws) = w @ sep @ join_with sep ws"

definition last_two :: "'a list \<Rightarrow> 'a list" where
  "last_two ws = drop (length ws - 2) ws"

definition get_main_domain :: "URL \<Rightarrow> string" where
  "get_main_domain u =
     (if count_list (host u) CHR ''.'' > 1
      then join_with ''.'' (last_two (split_on CHR ''.'' (host u)))
      else host u)"

definition clean_url :: "URL \<Rightarrow> URL" where
  "clean_url u = u\<lparr>query := None, fragment := None\<rparr>"

definition create_id_for_url :: "Externals \<Rightarrow> URL \<Rightarrow> string" where
  "create_id_for_url ext u = md5_hexdigest ext (str_URL u)"

definition is_url_valid :: "CrawlerConfig \<Rightarrow> URL \<Rightarrow> bool" where
  "is_url_valid cfg u \<longleftrightarrow>
     is_absolute_url u \<and> scheme u \<in> {''http'', ''https''} \<and>
     \<not> list_ex (\<lambda>d. d (host u)) (denied_domains cfg)"

subsection \<open>The frontier\<close>

text \<open>
  A row of the frontier \<^verbatim>\<open>DataFrame\<close>. A cell is \<open>None\<close> where pandas holds NaN, which
  is what setting with enlargement leaves in the columns it is not given. The frontier
  itself is the list of rows in table order, indexed by \<^verbatim>\<open>doc_id\<close>.
\<close>

record FrontierRow =
  url :: "string option"
  domain :: "string option"
  main_domain :: "string option"
  depth :: "int option"
  priority :: "int option"
  status :: "Status option"
  created :: "nat option"
  updated :: "nat option"
  root_id :: "string option"
  random_sort_key :: "real option"
  features_tubingen :: "bool option"
  features_english :: "bool option"

definition nan_row :: FrontierRow where
  "nan_row = \<lparr>url = None, domain = None, main_domain = None, depth = None, priority = None,
     status = None, created = None, updated = None, root_id = None, random_sort_key = None,
     features_tubingen = None, features_english = None\<rparr>"

text \<open>
  The crawler object: the frontier, the files written to \<^verbatim>\<open>html_dir\<close>, the frontier
  file last written, and the number of clock and random reads made so far.
\<close>

record Crawler =
  frontier :: "(string \<times> FrontierRow) list"
  html_dir :: "(string \<times> string) list"
  csv :: "(string \<times> FrontierRow) list option"
  reads :: nat

text \<open>
  The keyword arguments of \<^verbatim>\<open>update_doc\<close>: \<open>None\<close> for a key that is not passed. The
  values of \<^verbatim>\<open>depth\<close> and \<^verbatim>\<open>priority\<close> are computed from cells and may be NaN.
\<close>

record update_dict =
  upd_depth :: "int option option"
  upd_priority :: "int option option"
  upd_status :: "Status option"
  upd_url :: "string option"
  upd_domain :: "string option"
  upd_features_tubingen :: "bool option"
  upd_features_english :: "bool option"

definition no_update :: update_dict where
  "no_update = \<lparr>upd_depth = None, upd_priority = None, upd_status = None, upd_url = None,
     upd_domain = None, upd_features_tubingen = None, upd_features_english = None\<rparr>"

definition set_cells :: "update_dict \<Rightarrow> nat \<Rightarrow> FrontierRow \<Rightarrow> FrontierRow" where
  "set_cells upd now r =
     r\<lparr>depth := (case upd_depth upd of None \<Rightarrow> depth r | Some v \<Rightarrow> v),
       priority := (case upd_priority upd of None \<Rightarrow> priority r | Some v \<Rightarrow> v),
       status := (case upd_status upd of None \<Rightarrow> status r | Some v \<Rightarrow> Some v),
       url := (case upd_url upd of None \<Rightarrow> url r | Some v \<Rightarrow> Some v),
       domain := (case upd_domain upd of None \<Rightarrow> domain r | Some v \<Rightarrow> Some v),
       features_tubingen :=
         (case upd_features_tubingen upd of None \<Rightarrow> features_tubingen r | Some v \<Rightarrow> Some v),
       features_english :=
         (case upd_features_english upd of None \<Rightarrow> features_english r | Some v \<Rightarrow> Some v),
       updated := Some now\<rparr>"

text \<open>
  \<^verbatim>\<open>self.frontier.loc[doc_id, keys] = values\<close>: pandas sets the cells of the row labelled
  \<^verbatim>\<open>doc_id\<close>; when no row has that label it appends one (setting with enlargement) whose
  other cells are NaN.
\<close>

definition update_doc :: "Externals \<Rightarrow> string \<Rightarrow> update_dict \<Rightarrow> Crawler \<Rightarrow> Crawler" where
  "update_doc ext doc_id upd s =
     (let now = Timestamp_now ext (reads s);
          row = (case map_of (frontier s) doc_id of None \<Rightarrow> nan_row | Some r \<Rightarrow> r)
      in s\<lparr>frontier := AList.update doc_id (set_cells upd now row) (frontier s),
           reads := Suc (reads s)\<rparr>)"

text \<open>Comparisons with NaN are false; Python's \<^verbatim>\<open>min(a, b)\<close> and \<^verbatim>\<open>max(a, b)\<close> keep a NaN \<^verbatim>\<open>a\<close>.\<close>

definition cell_gt :: "int option \<Rightarrow> int \<Rightarrow> bool" where
  "cell_gt a b = (case a of None \<Rightarrow> False | Some x \<Rightarrow> x > b)"

definition cell_lt :: "int option \<Rightarrow> int \<Rightarrow> bool" where
  "cell_lt a b = (case a of None \<Rightarrow> False | Some x \<Rightarrow> x < b)"

definition py_min :: "int option \<Rightarrow> int \<Rightarrow> int option" where
  "py_min a b = (case a of None \<Rightarrow> None | Some x \<Rightarrow> Some (if b < x then b else x))"

definition py_max :: "int option \<Rightarrow> int \<Rightarrow> int option" where
  "py_max a b = (case a of None \<Rightarrow> None | Some x \<Rightarrow> Some (if b > x then b else x))"

definition add_to_frontier ::
  "Externals \<Rightarrow> URL \<Rightarrow> Priority \<Rightarrow> int \<Rightarrow> string option \<Rightarrow> Crawler \<Rightarrow> Crawler" where
  "add_to_frontier ext u prio d rt s =
     (let doc_id = create_id_for_url ext u in
      case map_of (frontier s) doc_id of
        None \<Rightarrow>
          (let now = Timestamp_now ext (reads s);
               rnd = random_random ext (Suc (reads s))
           in s\<lparr>frontier := AList.update doc_id
                  \<lparr>url = Some (str_URL u), domain = Some (host u),
                   main_domain = Some (get_main_domain u), depth = Some d,
                   priority = Some (Priority_value prio), status = Some pending,
                   created = Some now, updated = Some now, root_id = rt,
                   random_sort_key = Some rnd, features_tubingen = Some False,
                   features_english = Some False\<rparr> (frontier s),
                reads := reads s + 2\<rparr>)
      | Some entry \<Rightarrow>
          (if status entry = Some pending \<and>
              (cell_gt (depth entry) d \<or> cell_lt (priority entry) (Priority_value prio))
           then update_doc ext doc_id
                  (no_update\<lparr>upd_depth := Some (py_min (depth entry) d),
                     upd_priority := Some (py_max (priority entry) (Priority_value prio))\<rparr>) s
           else s))"

subsection \<open>The batch scheduler\<close>

datatype error = TimeoutError | TransportError | HTTPStatusError | RetryError
  | TypeError | InvalidURL

record ScrapingRequest =
  doc_id :: string
  req_url :: URL
  req_root :: "string option"
  req_depth :: int

text \<open>\<^verbatim>\<open>query("status == 'pending' and depth < @self.config.max_depth")\<close>\<close>

definition query_pending ::
  "CrawlerConfig \<Rightarrow> (string \<times> FrontierRow) list \<Rightarrow> (string \<times> FrontierRow) list" where
  "query_pending cfg rows =
     filter (\<lambda>(i, r). status r = Some pending \<and> cell_lt (depth r) (max_depth cfg)) rows"

text \<open>
  \<^verbatim>\<open>sort_values(["priority", "depth", "random_sort_key"], ascending=[False, True, True])\<close>:
  a stable sort on the three columns, the first descending; a NaN sorts last in its column.
\<close>

definition sort_columns :: "FrontierRow \<Rightarrow> (nat \<times> int) \<times> (nat \<times> int) \<times> (nat \<times> real)" where
  "sort_columns r =
     ((case priority r of None \<Rightarrow> (1, 0) | Some p \<Rightarrow> (0, - p)),
      (case depth r of None \<Rightarrow> (1, 0) | Some d \<Rightarrow> (0, d)),
      (case random_sort_key r of None \<Rightarrow> (1, 0) | Some k \<Rightarrow> (0, k)))"

definition sort_values :: "(string \<times> FrontierRow) list \<Rightarrow> (string \<times> FrontierRow) list" where
  "sort_values rows = sort_key (\<lambda>(i, r). sort_columns r) rows"

text \<open>\<^verbatim>\<open>drop_duplicates(subset=["main_domain"], keep="first")\<close>, with the values seen so far.\<close>

fun drop_duplicates ::
  "string option list \<Rightarrow> (string \<times> FrontierRow) list \<Rightarrow> (string \<times> FrontierRow) list" where
  "drop_duplicates seen [] = []"
| "drop_duplicates seen ((i, r) # rows) =
     (if main_domain r \<in> set seen then drop_duplicates seen rows
      else (i, r) # drop_duplicates (main_domain r # seen) rows)"

text \<open>\<^verbatim>\<open>head(n)\<close>: the first \<open>n\<close> rows; for a negative \<open>n\<close>, all rows but the last \<open>-n\<close>.\<close>

definition head :: "int \<Rightarrow> 'a list \<Rightarrow> 'a list" where
  "head n rows = (if 0 \<le> n then take (nat n) rows else take (length rows - nat (- n)) rows)"

definition pending_docs ::
  "CrawlerConfig \<Rightarrow> (string \<times> FrontierRow) list \<Rightarrow> (string \<times> FrontierRow) list" where
  "pending_docs cfg rows =
     head (batch_size cfg) (drop_duplicates [] (sort_values (query_pending cfg rows)))"

text \<open>
  One \<^verbatim>\<open>ScrapingRequest\<close> of the list comprehension. \<^verbatim>\<open>URL(row["url"])\<close> raises
  \<^verbatim>\<open>TypeError\<close> on a NaN cell and \<^verbatim>\<open>InvalidURL\<close> on a string it cannot parse. The query
  keeps only rows that have a depth.
\<close>

definition make_request :: "Externals \<Rightarrow> string \<times> FrontierRow \<Rightarrow> error + ScrapingRequest" where
  "make_request ext row =
     (case url (snd row) of
        None \<Rightarrow> Inl TypeError
      | Some str \<Rightarrow>
          (case URL_of_str ext str of
             None \<Rightarrow> Inl InvalidURL
           | Some u \<Rightarrow>
               Inr \<lparr>doc_id = fst row, req_url = u, req_root = root_id (snd row),
                    req_depth = (case depth (snd row) of None \<Rightarrow> 0 | Some d \<Rightarrow> d)\<rparr>))"

fun make_requests ::
  "Externals \<Rightarrow> (string \<times> FrontierRow) list \<Rightarrow> error + ScrapingRequest list" where
  "make_requests ext [] = Inr []"
| "make_requests ext (row # rows) =
     (case make_request ext row of
        Inl e \<Rightarrow> Inl e
      | Inr req \<Rightarrow>
          (case make_requests ext rows of Inl e \<Rightarrow> Inl e | Inr reqs \<Rightarrow> Inr (req # reqs)))"

text \<open>The method returns its result together with the crawler object it leaves behind.\<close>

definition fetch_next_doc_batch ::
  "Externals \<Rightarrow> CrawlerConfig \<Rightarrow> Crawler \<Rightarrow> (error + ScrapingRequest list) \<times> Crawler" where
  "fetch_next_doc_batch ext cfg s = (make_requests ext (pending_docs cfg (frontier s)), s)"

subsection \<open>Fetching\<close>

record Response =
  resp_url :: URL
  status_code :: nat
  content_type :: "string option"
  content :: string

text \<open>
  What one \<^verbatim>\<open>await self.client.get(url, follow_redirects=True)\<close> under
  \<^verbatim>\<open>asyncio.timeout\<close> does: it times out, fails in the transport, or returns a response.
\<close>

datatype attempt = Timeout | NetworkError | Got Response

text \<open>The body of \<^verbatim>\<open>_get\<close>, run once: \<^verbatim>\<open>raise_for_status\<close> raises on a non-2xx status.\<close>

definition get_body :: "attempt \<Rightarrow> error + Response" where
  "get_body a =
     (case a of
        Timeout \<Rightarrow> Inl TimeoutError
      | NetworkError \<Rightarrow> Inl TransportError
      | Got r \<Rightarrow> (if 200 \<le> status_code r \<and> status_code r \<le> 299 then Inr r
                  else Inl HTTPStatusError))"

text \<open>
  \<^verbatim>\<open>@retry(stop=stop_after_attempt(3), ...)\<close>: the body is run again after every exception
  until it returns or the attempts are used up, which raises \<^verbatim>\<open>RetryError\<close>. The first
  argument is the number of attempts left, the second the number of the next attempt.
\<close>

fun retry :: "nat \<Rightarrow> nat \<Rightarrow> (nat \<Rightarrow> attempt) \<Rightarrow> error + Response" where
  "retry 0 k net = Inl RetryError"
| "retry (Suc n) k net =
     (case get_body (net k) of Inr r \<Rightarrow> Inr r | Inl e \<Rightarrow> retry n (Suc k) net)"

definition stop_after_attempt :: nat where
  "stop_after_attempt = 3"

text \<open>\<^verbatim>\<open>_get\<close>, with the outcomes of its attempts, numbered from 1.\<close>

definition get_retrying :: "(nat \<Rightarrow> attempt) \<Rightarrow> error + Response" where
  "get_retrying net = retry stop_after_attempt 1 net"

text \<open>
  \<^verbatim>\<open>fetch_response\<close> catches \<^verbatim>\<open>tenacity.RetryError\<close> only. The network gives, for a request,
  the outcome of each attempt.
\<close>

type_synonym Network = "ScrapingRequest \<Rightarrow> nat \<Rightarrow> attempt"

definition fetch_response :: "Network \<Rightarrow> ScrapingRequest \<Rightarrow> error + Response option" where
  "fetch_response net req =
     (case get_retrying (net req) of
        Inr r \<Rightarrow> Inr (Some r)
      | Inl e \<Rightarrow> (if e = RetryError then Inr None else Inl e))"

subsection \<open>Classifying a page and discovering links\<close>

definition is_html :: "Externals \<Rightarrow> Response \<Rightarrow> bool" where
  "is_html ext r =
     (let ct = str_strip ext (str_lower ext (case content_type r of None \<Rightarrow> [] | Some v \<Rightarrow> v))
      in take 9 ct = ''text/html'')"

definition html_too_large :: "CrawlerConfig \<Rightarrow> string \<Rightarrow> bool" where
  "html_too_large cfg c \<longleftrightarrow> int (length c) > max_filesize cfg"

definition is_english :: "Externals \<Rightarrow> HtmlElement \<Rightarrow> bool" where
  "is_english ext tree = list_ex (\<lambda>lang. ENGLISH_PATTERN_search ext (str_strip ext lang)) (html_lang tree)"

text \<open>\<^verbatim>\<open>html.fromstring("<html></html>")\<close>: a document with no text, language or link.\<close>

definition empty_html :: HtmlElement where
  "empty_html = \<lparr>text_content = [], html_lang = [], a_href = []\<rparr>"

definition parse_html :: "Externals \<Rightarrow> string \<Rightarrow> HtmlElement" where
  "parse_html ext c = (case html_fromstring ext c of None \<Rightarrow> empty_html | Some tree \<Rightarrow> tree)"

definition extract_url :: "Externals \<Rightarrow> CrawlerConfig \<Rightarrow> string \<Rightarrow> URL \<Rightarrow> URL option" where
  "extract_url ext cfg href base_url =
     (case URL_of_str ext href of
        None \<Rightarrow> None
      | Some u \<Rightarrow>
          (let u1 = (if is_relative_url u then URL_join ext base_url u else u);
               u2 = clean_url u1
           in if is_url_valid cfg u2 then Some u2 else None))"

text \<open>The loop \<^verbatim>\<open>for href in tree.xpath("//a/@href")\<close> of \<^verbatim>\<open>add_new_links_to_frontier\<close>.\<close>

fun add_links ::
  "Externals \<Rightarrow> CrawlerConfig \<Rightarrow> ScrapingRequest \<Rightarrow> Response \<Rightarrow> Priority \<Rightarrow> string list \<Rightarrow>
   Crawler \<Rightarrow> Crawler" where
  "add_links ext cfg request response prio [] s = s"
| "add_links ext cfg request response prio (href # hrefs) s =
     add_links ext cfg request response prio hrefs
       (case extract_url ext cfg href (resp_url response) of
          None \<Rightarrow> s
        | Some u \<Rightarrow> add_to_frontier ext u prio (req_depth request + 1) (req_root request) s)"

definition add_new_links_to_frontier ::
  "Externals \<Rightarrow> CrawlerConfig \<Rightarrow> ScrapingRequest \<Rightarrow> Response \<Rightarrow> Crawler \<Rightarrow> Crawler" where
  "add_new_links_to_frontier ext cfg request response s =
     (let tree = parse_html ext (content response) in
      if \<not> TUBINGEN_PATTERN_search ext (text_content tree) then s
      else if is_english ext tree then
        add_links ext cfg request response high (a_href tree)
          (update_doc ext (doc_id request)
             (no_update\<lparr>upd_features_tubingen := Some True, upd_features_english := Some True\<rparr>) s)
      else
        (let s1 = update_doc ext (doc_id request) (no_update\<lparr>upd_features_tubingen := Some True\<rparr>) s;
             url_en = (resp_url response)\<lparr>path := ''/en'', query := None, fragment := None\<rparr>;
             s2 = (if is_url_valid cfg url_en
                   then add_to_frontier ext url_en high (req_depth request + 1) (req_root request) s1
                   else s1)
         in add_links ext cfg request response low (a_href tree) s2))"

subsection \<open>The run loop\<close>

definition save_response :: "string \<Rightarrow> string \<Rightarrow> Crawler \<Rightarrow> Crawler" where
  "save_response i c s = s\<lparr>html_dir := AList.update (i @ ''.html'') c (html_dir s)\<rparr>"

definition save_frontier :: "Crawler \<Rightarrow> Crawler" where
  "save_frontier s = s\<lparr>csv := Some (frontier s)\<rparr>"

text \<open>The body of \<^verbatim>\<open>for req, response in zip(req_batch, responses)\<close> in \<^verbatim>\<open>_run\<close>.\<close>

definition process_response ::
  "Externals \<Rightarrow> CrawlerConfig \<Rightarrow> ScrapingRequest \<Rightarrow> Response option \<Rightarrow> Crawler \<Rightarrow> Crawler" where
  "process_response ext cfg req response s =
     (case response of
        None \<Rightarrow> update_doc ext (doc_id req) (no_update\<lparr>upd_status := Some failed\<rparr>) s
      | Some r \<Rightarrow>
          (if \<not> is_html ext r \<or> html_too_large cfg (content r)
           then update_doc ext (doc_id req) (no_update\<lparr>upd_status := Some failed\<rparr>) s
           else update_doc ext (doc_id req)
                  (no_update\<lparr>upd_status := Some completed,
                     upd_url := Some (str_URL (resp_url r)),
                     upd_domain := Some (host (resp_url r))\<rparr>)
                  (add_new_links_to_frontier ext cfg req r
                     (save_response (doc_id req) (content r) s))))"

fun process_batch ::
  "Externals \<Rightarrow> CrawlerConfig \<Rightarrow> (ScrapingRequest \<times> Response option) list \<Rightarrow> Crawler \<Rightarrow> Crawler" where
  "process_batch ext cfg [] s = s"
| "process_batch ext cfg ((req, response) # rest) s =
     process_batch ext cfg rest (process_response ext cfg req response s)"

text \<open>\<^verbatim>\<open>asyncio.gather(*(self.fetch_response(r) for r in req_batch))\<close>, results in batch order.\<close>

fun gather :: "Network \<Rightarrow> ScrapingRequest list \<Rightarrow> error + Response option list" where
  "gather net [] = Inr []"
| "gather net (req # reqs) =
     (case fetch_response net req of
        Inl e \<Rightarrow> Inl e
      | Inr r \<Rightarrow> (case gather net reqs of Inl e \<Rightarrow> Inl e | Inr rs \<Rightarrow> Inr (r # rs)))"

text \<open>
  The \<^verbatim>\<open>while\<close> loop of \<^verbatim>\<open>_run\<close>, for the rounds whose network behaviour is given: the
  crawler after the loop has ended, or after it has run one round per given network.
\<close>

fun run_loop :: "Externals \<Rightarrow> CrawlerConfig \<Rightarrow> Network list \<Rightarrow> Crawler \<Rightarrow> error + Crawler" where
  "run_loop ext cfg [] s = Inr s"
| "run_loop ext cfg (net # nets) s =
     (case fst (fetch_next_doc_batch ext cfg s) of
        Inl e \<Rightarrow> Inl e
      | Inr req_batch \<Rightarrow>
          (if req_batch = [] then Inr s
           else (case gather net req_batch of
                   Inl e \<Rightarrow> Inl e
                 | Inr responses \<Rightarrow>
                     run_loop ext cfg nets
                       (save_frontier (process_batch ext cfg (zip req_batch responses) s)))))"

section \<open>Notions used in the statements\<close>

text \<open>
  A sequence of \<^verbatim>\<open>add_to_frontier\<close> calls, each given by its arguments
  \<^verbatim>\<open>(url, priority, depth, root)\<close>.
\<close>

fun add_all :: "Externals \<Rightarrow> (URL \<times> Priority \<times> int \<times> string option) list \<Rightarrow> Crawler \<Rightarrow> Crawler" where
  "add_all ext [] s = s"
| "add_all ext ((u, prio, d, rt) # calls) s = add_all ext calls (add_to_frontier ext u prio d rt s)"

text \<open>Order on cells: two numbers in order, or both NaN.\<close>

definition cell_le :: "int option \<Rightarrow> int option \<Rightarrow> bool" where
  "cell_le a b = (case (a, b) of (Some x, Some y) \<Rightarrow> x \<le> y | (None, None) \<Rightarrow> True | _ \<Rightarrow> False)"

text \<open>
  \<open>improved r r'\<close>: row \<open>r'\<close> is row \<open>r\<close> except for \<^verbatim>\<open>depth\<close>, \<^verbatim>\<open>priority\<close> and
  \<^verbatim>\<open>updated\<close>, its depth is not larger and its priority not smaller.
\<close>

definition improved :: "FrontierRow \<Rightarrow> FrontierRow \<Rightarrow> bool" where
  "improved r r' \<longleftrightarrow>
     r' = r\<lparr>depth := depth r', priority := priority r', updated := updated r'\<rparr> \<and>
     cell_le (depth r') (depth r) \<and> cell_le (priority r) (priority r')"

text \<open>
  The scheduling order in the words of the specification: priority descending, then depth
  ascending, then random sort key ascending, a NaN after every number.
\<close>

definition desc_before :: "int option \<Rightarrow> int option \<Rightarrow> bool" where
  "desc_before a b =
     (case (a, b) of (Some x, Some y) \<Rightarrow> y < x | (Some x, None) \<Rightarrow> True | _ \<Rightarrow> False)"

definition asc_before :: "'a::linorder option \<Rightarrow> 'a option \<Rightarrow> bool" where
  "asc_before a b =
     (case (a, b) of (Some x, Some y) \<Rightarrow> x < y | (Some x, None) \<Rightarrow> True | _ \<Rightarrow> False)"

definition precedes :: "FrontierRow \<Rightarrow> FrontierRow \<Rightarrow> bool" where
  "precedes r1 r2 \<longleftrightarrow>
     desc_before (priority r1) (priority r2) \<or>
     priority r1 = priority r2 \<and>
       (asc_before (depth r1) (depth r2) \<or>
        depth r1 = depth r2 \<and>
          (asc_before (random_sort_key r1) (random_sort_key r2) \<or>
           random_sort_key r1 = random_sort_key r2))"

text \<open>The URL \<^verbatim>\<open>response.url.copy_with(path="/en", query=None, fragment=None)\<close>.\<close>

definition english_variant :: "URL \<Rightarrow> URL" where
  "english_variant u = u\<lparr>path := ''/en'', query := None, fragment := None\<rparr>"

section \<open>Example inputs\<close>

definition example_url :: "string \<Rightarrow> string \<Rightarrow> string option \<Rightarrow> string option \<Rightarrow> URL" where
  "example_url h p q f = \<lparr>scheme = ''https'', userinfo = [], host = h, port = None,
     path = p, query = q, fragment = f\<rparr>"

definition url_a :: URL where
  "url_a = example_url ''example.com'' ''/a'' None None"

definition url_b :: URL where
  "url_b = example_url ''other.org'' ''/b'' None None"

definition example_html :: "string \<Rightarrow> HtmlElement option" where
  "example_html c =
     (if c = ''german'' then
        Some \<lparr>text_content = ''Tuebingen'', html_lang = [''de''], a_href = [''https://other.org/b'']\<rparr>
      else if c = ''berlin'' then
        Some \<lparr>text_content = ''Berlin'', html_lang = [''en''], a_href = [''https://other.org/b'']\<rparr>
      else None)"

definition example_parse :: "string \<Rightarrow> URL option" where
  "example_parse str =
     (if str = ''https://example.com/a'' then Some url_a
      else if str = ''https://other.org/b'' then Some url_b
      else None)"

definition example_ext :: Externals where
  "example_ext = \<lparr>md5_hexdigest = (\<lambda>str. str), Timestamp_now = (\<lambda>n. n),
     random_random = (\<lambda>n. 1 / 2),
     TUBINGEN_PATTERN_search = (\<lambda>t. t = ''Tuebingen''),
     ENGLISH_PATTERN_search = (\<lambda>l. l = ''en''),
     str_strip = (\<lambda>str. str), str_lower = (\<lambda>str. str),
     html_fromstring = example_html, URL_of_str = example_parse,
     URL_join = (\<lambda>base u. u\<lparr>scheme := scheme base, host := host base\<rparr>)\<rparr>"

definition example_cfg :: "int \<Rightarrow> CrawlerConfig" where
  "example_cfg n = \<lparr>batch_size = n, max_depth = 10, max_filesize = 10000000,
     denied_domains = [\<lambda>h. h = ''facebook.com'']\<rparr>"

definition example_row :: "URL \<Rightarrow> int \<Rightarrow> int \<Rightarrow> Status \<Rightarrow> real \<Rightarrow> FrontierRow" where
  "example_row u d p st k = \<lparr>url = Some (str_URL u), domain = Some (host u),
     main_domain = Some (get_main_domain u), depth = Some d, priority = Some p,
     status = Some st, created = Some 0, updated = Some 0, root_id = Some (str_URL u),
     random_sort_key = Some k, features_tubingen = Some False, features_english = Some False\<rparr>"

definition example_crawler :: "(string \<times> FrontierRow) list \<Rightarrow> Crawler" where
  "example_crawler rows = \<lparr>frontier = rows, html_dir = [], csv = None, reads = 0\<rparr>"

definition example_frontier :: "(string \<times> FrontierRow) list" where
  "example_frontier =
     [(''https://example.com/a'', example_row url_a 0 1 pending (1 / 4)),
      (''https://other.org/b'', example_row url_b 0 1 pending (3 / 4))]"

definition request_a :: ScrapingRequest where
  "request_a = \<lparr>doc_id = ''https://example.com/a'', req_url = url_a,
     req_root = Some ''https://example.com/a'', req_depth = 0\<rparr>"

definition request_b :: ScrapingRequest where
  "request_b = \<lparr>doc_id = ''https://other.org/b'', req_url = url_b,
     req_root = Some ''https://other.org/b'', req_depth = 0\<rparr>"

text \<open>A network on which every attempt times out.\<close>

definition failing_net :: Network where
  "failing_net = (\<lambda>req k. Timeout)"

text \<open>A frontier with one completed and one pending record.\<close>

definition visited_frontier :: "(string \<times> FrontierRow) list" where
  "visited_frontier =
     [(''https://example.com/a'', example_row url_a 0 1 completed (1 / 4)),
      (''https://other.org/b'', example_row url_b 0 1 pending (3 / 4))]"

definition example_response :: "string \<Rightarrow> Response" where
  "example_response c = \<lparr>resp_url = url_a, status_code = 200, content_type = Some ''text/html'',
     content = c\<rparr>"

section \<open>Canonicalisation and fingerprints\<close>

text \<open>
  Claim C9. Canonicalisation is idempotent: cleaning a cleaned URL gives the cleaned URL
  again, and a cleaned URL has neither query (httpx's \<^verbatim>\<open>params\<close> are the query
  parameters) nor fragment, while every other component is the one of the input.
\<close>

theorem clean_url_idempotent:
  "clean_url (clean_url u) = clean_url u \<and>
   query (clean_url u) = None \<and> fragment (clean_url u) = None \<and>
   scheme (clean_url u) = scheme u \<and> userinfo (clean_url u) = userinfo u \<and>
   host (clean_url u) = host u \<and> port (clean_url u) = port u \<and>
   path (clean_url u) = path u"
  by (simp add: clean_url_def)

text \<open>
  Claim C8. Fingerprint determinism: two URLs that agree on scheme, user info, host, port
  and path (so differ at most in query string, query parameters and fragment) have the
  same \<^verbatim>\<open>doc_id\<close> after cleaning, and equal cleaned URLs have equal \<^verbatim>\<open>doc_id\<close>s.
\<close>

theorem create_id_for_url_deterministic:
  fixes u1 u2 :: URL
  shows "(scheme u1 = scheme u2 \<and> userinfo u1 = userinfo u2 \<and> host u1 = host u2 \<and>
          port u1 = port u2 \<and> path u1 = path u2
          \<longrightarrow> create_id_for_url ext (clean_url u1) = create_id_for_url ext (clean_url u2)) \<and>
         (clean_url u1 = clean_url u2
          \<longrightarrow> create_id_for_url ext (clean_url u1) = create_id_for_url ext (clean_url u2))"
proof -
  have "clean_url u1 = clean_url u2"
    if "scheme u1 = scheme u2" "userinfo u1 = userinfo u2" "host u1 = host u2"
       "port u1 = port u2" "path u1 = path u2"
    using that by (cases u1, cases u2) (simp add: clean_url_def)
  then show ?thesis by auto
qed

theorem create_id_for_url_deterministic_witness:
  "str_URL (example_url ''example.com'' ''/a'' (Some ''x=1'') (Some ''f'')) =
     ''https://example.com/a?x=1#f'' \<and>
   str_URL url_a = ''https://example.com/a'' \<and>
   create_id_for_url example_ext
     (clean_url (example_url ''example.com'' ''/a'' (Some ''x=1'') (Some ''f''))) =
   create_id_for_url example_ext (clean_url url_a)"
  using create_id_for_url_deterministic
    [of "example_url ''example.com'' ''/a'' (Some ''x=1'') (Some ''f'')" url_a example_ext]
  by (simp add: example_url_def url_a_def str_URL_def authority_def)

section \<open>The frontier store\<close>

lemma update_absent: "map_of al k = None \<Longrightarrow> AList.update k v al = al @ [(k, v)]"
  by (induction al) (auto split: if_splits)

lemma update_present_keys: "map_of al k = Some w \<Longrightarrow> map fst (AList.update k v al) = map fst al"
  by (induction al) (auto split: if_splits)

lemma map_of_update_doc:
  "map_of (frontier (update_doc ext i upd s)) j =
     (if j = i
      then Some (set_cells upd (Timestamp_now ext (reads s))
                  (case map_of (frontier s) i of None \<Rightarrow> nan_row | Some r \<Rightarrow> r))
      else map_of (frontier s) j)"
  by (simp add: update_doc_def Let_def AList.update_conv')

lemma map_of_add_to_frontier_other:
  "j \<noteq> create_id_for_url ext u \<Longrightarrow>
   map_of (frontier (add_to_frontier ext u p d rt s)) j = map_of (frontier s) j"
  by (simp add: add_to_frontier_def Let_def map_of_update_doc AList.update_conv'
      split: option.splits)

lemma cell_le_refl: "cell_le a a"
  by (simp add: cell_le_def split: option.splits)

lemma cell_le_trans: "cell_le a b \<Longrightarrow> cell_le b c \<Longrightarrow> cell_le a c"
  by (auto simp: cell_le_def split: option.splits)

lemma improved_refl: "improved r r"
  by (simp add: improved_def cell_le_refl)

lemma improved_trans:
  assumes "improved r r'" and "improved r' r''"
  shows "improved r r''"
proof -
  have "r'' = r\<lparr>depth := depth r'', priority := priority r'', updated := updated r''\<rparr>"
    using assms unfolding improved_def by (cases r, cases r', cases r'') simp
  moreover have "cell_le (depth r'') (depth r)"
    using assms unfolding improved_def by (blast intro: cell_le_trans)
  moreover have "cell_le (priority r) (priority r'')"
    using assms unfolding improved_def by (blast intro: cell_le_trans)
  ultimately show ?thesis unfolding improved_def by simp
qed

lemma improved_status: "improved r r' \<Longrightarrow> status r' = status r"
  unfolding improved_def by (cases r, cases r') simp

lemma add_to_frontier_same:
  assumes "map_of (frontier s) (create_id_for_url ext u) = Some r"
  shows "map_of (frontier (add_to_frontier ext u p d rt s)) (create_id_for_url ext u) =
     Some (if status r = Some pending \<and> (cell_gt (depth r) d \<or> cell_lt (priority r) (Priority_value p))
           then r\<lparr>depth := py_min (depth r) d, priority := py_max (priority r) (Priority_value p),
                  updated := Some (Timestamp_now ext (reads s))\<rparr>
           else r)"
  using assms
  by (cases r) (auto simp: add_to_frontier_def Let_def map_of_update_doc set_cells_def no_update_def)

lemma improved_step:
  "improved r (r\<lparr>depth := py_min (depth r) d, priority := py_max (priority r) p, updated := t\<rparr>)"
  by (cases r) (simp add: improved_def cell_le_def py_min_def py_max_def split: option.splits)

lemma add_to_frontier_present:
  assumes "map_of (frontier s) j = Some r"
  shows "\<exists>r'. map_of (frontier (add_to_frontier ext u p d rt s)) j = Some r' \<and> improved r r'"
proof (cases "j = create_id_for_url ext u")
  case False
  then show ?thesis using assms by (simp add: map_of_add_to_frontier_other improved_refl)
next
  case True
  with assms have "map_of (frontier s) (create_id_for_url ext u) = Some r" by simp
  from add_to_frontier_same[OF this, of p d rt] True show ?thesis
    by (simp add: improved_refl improved_step)
qed

lemma add_all_present:
  "map_of (frontier s) j = Some r \<Longrightarrow>
   \<exists>r'. map_of (frontier (add_all ext calls s)) j = Some r' \<and> improved r r'"
proof (induction calls arbitrary: s r)
  case Nil
  then show ?case by (simp add: improved_refl)
next
  case (Cons c calls)
  obtain u p d rt where c: "c = (u, p, d, rt)" by (cases c)
  from add_to_frontier_present[OF Cons.prems, of ext u p d rt]
  obtain r1 where r1: "map_of (frontier (add_to_frontier ext u p d rt s)) j = Some r1"
    and i1: "improved r r1" by blast
  from Cons.IH[OF r1] obtain r' where
    "map_of (frontier (add_all ext calls (add_to_frontier ext u p d rt s))) j = Some r'"
    and "improved r1 r'" by blast
  with i1 c show ?case by (auto intro: improved_trans)
qed

text \<open>
  Claim C2, as amended. \<^verbatim>\<open>update_doc\<close> with a \<^verbatim>\<open>doc_id\<close> that is absent from the frontier
  raises nothing, but it is no no-op: pandas appends one row labelled \<^verbatim>\<open>doc_id\<close>, which
  holds the given fields and \<^verbatim>\<open>updated\<close> and NaN in every other column. The rows already
  there, the saved pages and the frontier file are unchanged.
\<close>

theorem update_doc_absent_appends:
  assumes "map_of (frontier s) i = None"
  shows "frontier (update_doc ext i upd s) =
           frontier s @ [(i, set_cells upd (Timestamp_now ext (reads s)) nan_row)] \<and>
         html_dir (update_doc ext i upd s) = html_dir s \<and>
         csv (update_doc ext i upd s) = csv s"
  using assms by (simp add: update_doc_def Let_def update_absent)

theorem update_doc_absent_appends_witness:
  "map_of (frontier (example_crawler [(''https://example.com/a'', example_row url_a 0 1 pending (1 / 2))]))
     ''missing'' = None \<and>
   map fst (frontier (update_doc example_ext ''missing'' (no_update\<lparr>upd_status := Some failed\<rparr>)
     (example_crawler [(''https://example.com/a'', example_row url_a 0 1 pending (1 / 2))]))) =
   [''https://example.com/a'', ''missing'']"
  using update_doc_absent_appends
    [of "example_crawler [(''https://example.com/a'', example_row url_a 0 1 pending (1 / 2))]"
        "''missing''" example_ext "no_update\<lparr>upd_status := Some failed\<rparr>"]
  by (simp add: example_crawler_def)

theorem update_doc_absent_counterexample:
  "map_of (frontier (example_crawler [])) ''missing'' = None \<and>
   frontier (update_doc example_ext ''missing'' (no_update\<lparr>upd_status := Some failed\<rparr>)
     (example_crawler [])) =
     [(''missing'', nan_row\<lparr>status := Some failed, updated := Some 0\<rparr>)] \<and>
   frontier (update_doc example_ext ''missing'' (no_update\<lparr>upd_status := Some failed\<rparr>)
     (example_crawler [])) \<noteq> frontier (example_crawler [])"
  by (simp add: example_crawler_def update_doc_def set_cells_def no_update_def example_ext_def
      nan_row_def)

text \<open>
  Claim C3. Monotonic priority and depth. Over any sequence of \<^verbatim>\<open>add_to_frontier\<close> calls, a
  record that is in the frontier stays there, its stored depth never increases and its
  stored priority never decreases (nothing else but \<^verbatim>\<open>updated\<close> changes). One call for
  the URL of a pending record updates it only when the proposed depth is smaller or the
  proposed priority higher, and then the depth becomes the minimum and the priority the
  maximum of the old and the proposed value.
\<close>

theorem add_to_frontier_monotonic:
  "(map_of (frontier s) i = Some r \<longrightarrow>
      (\<exists>r'. map_of (frontier (add_all ext calls s)) i = Some r' \<and> improved r r' \<and>
            cell_le (depth r') (depth r) \<and> cell_le (priority r) (priority r'))) \<and>
   (map_of (frontier s) (create_id_for_url ext u) = Some r0 \<and> status r0 = Some pending \<and>
    depth r0 = Some d0 \<and> priority r0 = Some p0 \<longrightarrow>
      map_of (frontier (add_to_frontier ext u prio d rt s)) (create_id_for_url ext u) =
        Some (if d < d0 \<or> p0 < Priority_value prio
              then r0\<lparr>depth := Some (min d0 d), priority := Some (max p0 (Priority_value prio)),
                      updated := Some (Timestamp_now ext (reads s))\<rparr>
              else r0))"
proof (intro conjI impI)
  assume "map_of (frontier s) i = Some r"
  from add_all_present[OF this, of ext calls]
  show "\<exists>r'. map_of (frontier (add_all ext calls s)) i = Some r' \<and> improved r r' \<and>
            cell_le (depth r') (depth r) \<and> cell_le (priority r) (priority r')"
    unfolding improved_def by blast
next
  assume a: "map_of (frontier s) (create_id_for_url ext u) = Some r0 \<and> status r0 = Some pending \<and>
    depth r0 = Some d0 \<and> priority r0 = Some p0"
  then have "map_of (frontier s) (create_id_for_url ext u) = Some r0" by simp
  from add_to_frontier_same[OF this, of prio d rt] a
  show "map_of (frontier (add_to_frontier ext u prio d rt s)) (create_id_for_url ext u) =
        Some (if d < d0 \<or> p0 < Priority_value prio
              then r0\<lparr>depth := Some (min d0 d), priority := Some (max p0 (Priority_value prio)),
                      updated := Some (Timestamp_now ext (reads s))\<rparr>
              else r0)"
    by (simp add: cell_gt_def cell_lt_def py_min_def py_max_def min_def max_def)
qed

lemma example_ext_simps:
  "md5_hexdigest example_ext str = str"
  "Timestamp_now example_ext n = n"
  "random_random example_ext n = 1 / 2"
  "TUBINGEN_PATTERN_search example_ext t \<longleftrightarrow> t = ''Tuebingen''"
  "ENGLISH_PATTERN_search example_ext l \<longleftrightarrow> l = ''en''"
  "str_strip example_ext str = str"
  "str_lower example_ext str = str"
  "html_fromstring example_ext = example_html"
  "URL_of_str example_ext = example_parse"
  "URL_join example_ext base u = u\<lparr>scheme := scheme base, host := host base\<rparr>"
  by (simp_all add: example_ext_def)

lemma str_url_a: "str_URL url_a = ''https://example.com/a''"
  by (simp add: url_a_def example_url_def str_URL_def authority_def)

lemma str_url_b: "str_URL url_b = ''https://other.org/b''"
  by (simp add: url_b_def example_url_def str_URL_def authority_def)

theorem add_to_frontier_monotonic_witness:
  "map_of (frontier (example_crawler [(''https://example.com/a'', example_row url_a 3 0 pending (1 / 2))]))
     ''https://example.com/a'' = Some (example_row url_a 3 0 pending (1 / 2)) \<and>
   create_id_for_url example_ext url_a = ''https://example.com/a'' \<and>
   (\<exists>r'. map_of (frontier (add_all example_ext [(url_a, low, 5, None), (url_a, high, 2, None)]
       (example_crawler [(''https://example.com/a'', example_row url_a 3 0 pending (1 / 2))])))
       ''https://example.com/a'' = Some r' \<and>
     improved (example_row url_a 3 0 pending (1 / 2)) r' \<and>
     cell_le (depth r') (Some 3) \<and> cell_le (Some 0) (priority r')) \<and>
   map_of (frontier (add_to_frontier example_ext url_a high 2 None
       (example_crawler [(''https://example.com/a'', example_row url_a 3 0 pending (1 / 2))])))
       ''https://example.com/a'' =
     Some ((example_row url_a 3 0 pending (1 / 2))\<lparr>depth := Some 2, priority := Some 1,
             updated := Some 0\<rparr>)"
proof -
  have id: "create_id_for_url example_ext url_a = ''https://example.com/a''"
    by (simp add: create_id_for_url_def example_ext_simps str_url_a)
  have row: "status (example_row url_a 3 0 pending (1 / 2)) = Some pending"
    "depth (example_row url_a 3 0 pending (1 / 2)) = Some 3"
    "priority (example_row url_a 3 0 pending (1 / 2)) = Some 0"
    by (simp_all add: example_row_def)
  have st: "frontier (example_crawler rows) = rows" "reads (example_crawler rows) = 0" for rows
    by (simp_all add: example_crawler_def)
  show ?thesis
    using add_to_frontier_monotonic
      [of "example_crawler [(''https://example.com/a'', example_row url_a 3 0 pending (1 / 2))]"
          "''https://example.com/a''" "example_row url_a 3 0 pending (1 / 2)" example_ext
          "[(url_a, low, 5, None), (url_a, high, 2, None)]" url_a
          "example_row url_a 3 0 pending (1 / 2)" 3 0 high 2 None]
    by (simp add: id row st example_ext_simps)
qed

section \<open>The batch scheduler\<close>

lemma sort_columns_le: "sort_columns r1 \<le> sort_columns r2 \<longleftrightarrow> precedes r1 r2"
  by (auto simp: sort_columns_def precedes_def desc_before_def asc_before_def
      less_eq_prod_def less_prod_def split: option.splits)

lemma sorted_sort_values:
  "sorted_wrt (\<lambda>a b. precedes (snd a) (snd b)) (sort_values rows)"
proof -
  have "sorted (map (\<lambda>(i, r). sort_columns r) (sort_values rows))"
    unfolding sort_values_def by (rule sorted_sort_key)
  then show ?thesis
    by (simp add: sorted_wrt_map sorted_wrt_iff_nth_less case_prod_beta sort_columns_le[symmetric])
qed

lemma set_sort_values: "set (sort_values rows) = set rows"
  by (simp add: sort_values_def)

lemma set_drop_duplicates: "set (drop_duplicates seen rows) \<subseteq> set rows"
  by (induction seen rows rule: drop_duplicates.induct) auto

lemma drop_duplicates_fresh:
  "(i, r) \<in> set (drop_duplicates seen rows) \<Longrightarrow> main_domain r \<notin> set seen"
  by (induction seen rows rule: drop_duplicates.induct) (auto split: if_splits)

lemma distinct_drop_duplicates:
  "distinct (map (\<lambda>row. main_domain (snd row)) (drop_duplicates seen rows))"
proof (induction seen rows rule: drop_duplicates.induct)
  case (1 seen)
  then show ?case by simp
next
  case (2 seen i r rows)
  show ?case
  proof (cases "main_domain r \<in> set seen")
    case True
    with 2(1) show ?thesis by simp
  next
    case False
    have "main_domain (snd row) \<noteq> main_domain r"
      if "row \<in> set (drop_duplicates (main_domain r # seen) rows)" for row
    proof -
      have "main_domain (snd row) \<notin> set (main_domain r # seen)"
        using drop_duplicates_fresh[of "fst row" "snd row" "main_domain r # seen" rows] that
        by simp
      then show ?thesis by simp
    qed
    then have "main_domain r \<notin>
        (\<lambda>row. main_domain (snd row)) ` set (drop_duplicates (main_domain r # seen) rows)"
      by force
    with False 2(2) show ?thesis by simp
  qed
qed

lemma set_head: "set (head n rows) \<subseteq> set rows"
  by (simp add: head_def set_take_subset)

lemma distinct_map_head: "distinct (map f rows) \<Longrightarrow> distinct (map f (head n rows))"
  by (simp add: head_def take_map[symmetric] del: take_map)

lemma length_head: "0 \<le> n \<Longrightarrow> int (length (head n rows)) \<le> n"
  by (simp add: head_def)

lemma set_query_pending:
  "set (query_pending cfg rows) =
     {(i, r). (i, r) \<in> set rows \<and> status r = Some pending \<and> cell_lt (depth r) (max_depth cfg)}"
  by (auto simp: query_pending_def)

lemma set_pending_docs: "set (pending_docs cfg rows) \<subseteq> set (query_pending cfg rows)"
proof -
  have "set (pending_docs cfg rows) \<subseteq> set (sort_values (query_pending cfg rows))"
    unfolding pending_docs_def
    by (rule subset_trans[OF set_head set_drop_duplicates])
  then show ?thesis by (simp only: set_sort_values)
qed

lemma pending_docs_eligible:
  assumes "(i, r) \<in> set (pending_docs cfg rows)"
  shows "(i, r) \<in> set rows \<and> status r = Some pending \<and> cell_lt (depth r) (max_depth cfg)"
proof -
  have "(i, r) \<in> set (query_pending cfg rows)"
    using assms set_pending_docs[of cfg rows] by (rule set_mp[rotated])
  then show ?thesis by (simp add: set_query_pending)
qed

lemma distinct_pending_docs:
  "distinct (map (\<lambda>row. main_domain (snd row)) (pending_docs cfg rows))"
  unfolding pending_docs_def by (rule distinct_map_head[OF distinct_drop_duplicates])

lemma distinct_keys_drop_duplicates:
  "distinct (map fst rows) \<Longrightarrow> distinct (map fst (drop_duplicates seen rows))"
proof (induction seen rows rule: drop_duplicates.induct)
  case (1 seen)
  then show ?case by simp
next
  case (2 seen i r rows)
  from 2(3) have d: "distinct (map fst rows)" and i: "i \<notin> fst ` set rows" by simp_all
  show ?case
  proof (cases "main_domain r \<in> set seen")
    case True
    with 2(1) d show ?thesis by simp
  next
    case False
    have "fst ` set (drop_duplicates (main_domain r # seen) rows) \<subseteq> fst ` set rows"
      by (rule image_mono[OF set_drop_duplicates])
    with i have "i \<notin> fst ` set (drop_duplicates (main_domain r # seen) rows)" by blast
    with False 2(2) d show ?thesis by simp
  qed
qed

lemma distinct_keys_pending_docs:
  assumes "distinct (map fst rows)"
  shows "distinct (map fst (pending_docs cfg rows))"
proof -
  have "distinct (map fst (query_pending cfg rows))"
    using assms by (simp add: query_pending_def distinct_map_filter)
  then have "distinct (map fst (sort_values (query_pending cfg rows)))"
    by (simp add: sort_values_def distinct_map)
  then show ?thesis
    unfolding pending_docs_def by (intro distinct_map_head distinct_keys_drop_duplicates)
qed

lemma make_request_Inr:
  assumes "make_request ext row = Inr q"
  shows "doc_id q = fst row \<and> req_root q = root_id (snd row) \<and>
     (case depth (snd row) of None \<Rightarrow> True | Some d \<Rightarrow> req_depth q = d) \<and>
     (case url (snd row) of None \<Rightarrow> False | Some str \<Rightarrow> URL_of_str ext str = Some (req_url q))"
  using assms by (auto simp: make_request_def split: option.splits)

lemma make_request_Inl:
  assumes "make_request ext row = Inl e"
  shows "(e = TypeError \<and> url (snd row) = None) \<or>
     (e = InvalidURL \<and> (\<exists>str. url (snd row) = Some str \<and> URL_of_str ext str = None))"
  using assms by (auto simp: make_request_def split: option.splits)

lemma make_requests_Inr:
  "make_requests ext rows = Inr reqs \<Longrightarrow>
   list_all2 (\<lambda>row q. make_request ext row = Inr q) rows reqs"
proof (induction rows arbitrary: reqs)
  case Nil
  then show ?case by simp
next
  case (Cons row rows)
  from Cons.prems obtain q qs where q: "make_request ext row = Inr q"
    and qs: "make_requests ext rows = Inr qs" and reqs: "reqs = q # qs"
    by (auto split: sum.splits)
  with Cons.IH[OF qs] show ?case by simp
qed

lemma make_requests_Inl:
  "make_requests ext rows = Inl e \<Longrightarrow> \<exists>row \<in> set rows. make_request ext row = Inl e"
  by (induction rows) (auto split: sum.splits)

lemma make_requests_doc_ids:
  assumes "make_requests ext rows = Inr reqs"
  shows "map doc_id reqs = map fst rows"
proof -
  have "list_all2 (\<lambda>row q. doc_id q = fst row) rows reqs"
    using make_requests_Inr[OF assms]
    by (rule list_all2_mono) (simp add: make_request_Inr)
  then show ?thesis
    by (induction rule: list_all2_induct) simp_all
qed

lemma example_row_simps:
  "url (example_row u d p st k) = Some (str_URL u)"
  "depth (example_row u d p st k) = Some d"
  "priority (example_row u d p st k) = Some p"
  "status (example_row u d p st k) = Some st"
  "root_id (example_row u d p st k) = Some (str_URL u)"
  "random_sort_key (example_row u d p st k) = Some k"
  "main_domain (example_row u d p st k) = Some (get_main_domain u)"
  "features_tubingen (example_row u d p st k) = Some False"
  "features_english (example_row u d p st k) = Some False"
  by (simp_all add: example_row_def)

lemma example_main_domains:
  "get_main_domain url_a = ''example.com''" "get_main_domain url_b = ''other.org''"
  by (simp_all add: get_main_domain_def url_a_def url_b_def example_url_def)

lemma example_crawler_simps:
  "frontier (example_crawler rows) = rows" "reads (example_crawler rows) = 0"
  "html_dir (example_crawler rows) = []" "csv (example_crawler rows) = None"
  by (simp_all add: example_crawler_def)

lemma example_cfg_simps:
  "batch_size (example_cfg n) = n" "max_depth (example_cfg n) = 10"
  "max_filesize (example_cfg n) = 10000000"
  "denied_domains (example_cfg n) = [\<lambda>h. h = ''facebook.com'']"
  by (simp_all add: example_cfg_def)

lemma example_sorted_rows:
  "drop_duplicates [] (sort_values (query_pending (example_cfg n) example_frontier)) =
     example_frontier"
proof -
  have "query_pending (example_cfg n) example_frontier = example_frontier"
    by (simp add: query_pending_def example_frontier_def example_row_simps example_cfg_simps
        cell_lt_def)
  moreover have "sort_values example_frontier = example_frontier"
    by (simp add: sort_values_def example_frontier_def sort_columns_def example_row_simps)
  moreover have "drop_duplicates [] example_frontier = example_frontier"
    by (simp add: example_frontier_def example_row_simps example_main_domains)
  ultimately show ?thesis by simp
qed

lemma example_request:
  "make_request example_ext (''https://example.com/a'', example_row url_a 0 1 pending (1 / 4)) =
     Inr request_a"
  by (simp add: make_request_def example_row_simps example_ext_simps str_url_a example_parse_def
      request_a_def)

text \<open>
  Claim C4. Scheduler postcondition. For every frontier and every batch size \<open>n \<ge> 0\<close>, the
  rows selected for the next batch are rows of the frontier with status pending and depth
  below \<^verbatim>\<open>max_depth\<close>, no two of them share a \<^verbatim>\<open>main_domain\<close>, and there are at most \<open>n\<close>;
  they are the first \<open>n\<close> rows, after the per-\<^verbatim>\<open>main_domain\<close> removal of duplicates, of the
  eligible rows sorted by priority descending, depth ascending and random sort key
  ascending. The method returns one request per selected row, in that order (when the URL
  cell of a selected row is NaN or does not parse, the \<^verbatim>\<open>URL\<close> constructor raises).
\<close>

theorem fetch_next_doc_batch_postcondition:
  assumes "0 \<le> batch_size cfg"
  shows "list_all (\<lambda>(i, r). (i, r) \<in> set (frontier s) \<and> status r = Some pending \<and>
             cell_lt (depth r) (max_depth cfg)) (pending_docs cfg (frontier s)) \<and>
     distinct (map (\<lambda>row. main_domain (snd row)) (pending_docs cfg (frontier s))) \<and>
     int (length (pending_docs cfg (frontier s))) \<le> batch_size cfg \<and>
     pending_docs cfg (frontier s) =
       head (batch_size cfg) (drop_duplicates [] (sort_values (query_pending cfg (frontier s)))) \<and>
     sorted_wrt (\<lambda>a b. precedes (snd a) (snd b)) (sort_values (query_pending cfg (frontier s))) \<and>
     set (sort_values (query_pending cfg (frontier s))) =
       {(i, r). (i, r) \<in> set (frontier s) \<and> status r = Some pending \<and>
          cell_lt (depth r) (max_depth cfg)} \<and>
     (case fst (fetch_next_doc_batch ext cfg s) of
        Inr reqs \<Rightarrow>
          int (length reqs) \<le> batch_size cfg \<and>
          list_all2 (\<lambda>row q. doc_id q = fst row \<and> req_root q = root_id (snd row) \<and>
              depth (snd row) = Some (req_depth q) \<and>
              (\<exists>str. url (snd row) = Some str \<and> URL_of_str ext str = Some (req_url q)))
            (pending_docs cfg (frontier s)) reqs
      | Inl e \<Rightarrow>
          \<exists>row \<in> set (pending_docs cfg (frontier s)).
            (e = TypeError \<and> url (snd row) = None) \<or>
            (e = InvalidURL \<and> (\<exists>str. url (snd row) = Some str \<and> URL_of_str ext str = None)))"
proof -
  let ?rows = "pending_docs cfg (frontier s)"
  have eligible: "list_all (\<lambda>(i, r). (i, r) \<in> set (frontier s) \<and> status r = Some pending \<and>
             cell_lt (depth r) (max_depth cfg)) ?rows"
    using pending_docs_eligible[of _ _ cfg "frontier s"] by (auto simp: list_all_iff)
  have len: "int (length ?rows) \<le> batch_size cfg"
    unfolding pending_docs_def by (rule length_head[OF assms])
  have sorted: "sorted_wrt (\<lambda>a b. precedes (snd a) (snd b))
      (sort_values (query_pending cfg (frontier s)))"
    by (rule sorted_sort_values)
  have elig_set: "set (sort_values (query_pending cfg (frontier s))) =
       {(i, r). (i, r) \<in> set (frontier s) \<and> status r = Some pending \<and>
          cell_lt (depth r) (max_depth cfg)}"
    by (simp only: set_sort_values set_query_pending)
  have result: "(case fst (fetch_next_doc_batch ext cfg s) of
        Inr reqs \<Rightarrow>
          int (length reqs) \<le> batch_size cfg \<and>
          list_all2 (\<lambda>row q. doc_id q = fst row \<and> req_root q = root_id (snd row) \<and>
              depth (snd row) = Some (req_depth q) \<and>
              (\<exists>str. url (snd row) = Some str \<and> URL_of_str ext str = Some (req_url q)))
            ?rows reqs
      | Inl e \<Rightarrow>
          \<exists>row \<in> set ?rows.
            (e = TypeError \<and> url (snd row) = None) \<or>
            (e = InvalidURL \<and> (\<exists>str. url (snd row) = Some str \<and> URL_of_str ext str = None)))"
  proof (cases "make_requests ext ?rows")
    case (Inl e)
    from make_requests_Inl[OF Inl] obtain row where "row \<in> set ?rows"
      and "make_request ext row = Inl e" by blast
    with make_request_Inl[of ext row e] Inl show ?thesis
      by (auto simp: fetch_next_doc_batch_def)
  next
    case (Inr reqs)
    have all2: "list_all2 (\<lambda>row q. make_request ext row = Inr q) ?rows reqs"
      by (rule make_requests_Inr[OF Inr])
    have "list_all2 (\<lambda>row q. doc_id q = fst row \<and> req_root q = root_id (snd row) \<and>
              depth (snd row) = Some (req_depth q) \<and>
              (\<exists>str. url (snd row) = Some str \<and> URL_of_str ext str = Some (req_url q)))
            ?rows reqs"
      using all2
    proof (rule list.rel_mono_strong)
      fix row q
      assume row: "row \<in> set ?rows" and q: "make_request ext row = Inr q"
      from row have "cell_lt (depth (snd row)) (max_depth cfg)"
        using pending_docs_eligible[of "fst row" "snd row" cfg "frontier s"] by simp
      then obtain d where d: "depth (snd row) = Some d"
        by (auto simp: cell_lt_def split: option.splits)
      from make_request_Inr[OF q] d
      show "doc_id q = fst row \<and> req_root q = root_id (snd row) \<and>
              depth (snd row) = Some (req_depth q) \<and>
              (\<exists>str. url (snd row) = Some str \<and> URL_of_str ext str = Some (req_url q))"
        by (auto split: option.splits)
    qed
    moreover from all2 have "length reqs = length ?rows"
      by (simp add: list_all2_lengthD)
    ultimately show ?thesis using Inr len
      by (simp add: fetch_next_doc_batch_def)
  qed
  from eligible distinct_pending_docs[of cfg "frontier s"] len sorted elig_set result
  show ?thesis by (simp only: pending_docs_def[symmetric] simp_thms)
qed

theorem fetch_next_doc_batch_postcondition_witness:
  "0 \<le> batch_size (example_cfg 1) \<and>
   pending_docs (example_cfg 1) (frontier (example_crawler example_frontier)) =
     [(''https://example.com/a'', example_row url_a 0 1 pending (1 / 4))] \<and>
   fst (fetch_next_doc_batch example_ext (example_cfg 1) (example_crawler example_frontier)) =
     Inr [request_a] \<and>
   int (length (pending_docs (example_cfg 1) (frontier (example_crawler example_frontier)))) \<le>
     batch_size (example_cfg 1)"
proof -
  have h: "0 \<le> batch_size (example_cfg 1)" by (simp add: example_cfg_simps)
  have rows: "pending_docs (example_cfg 1) (frontier (example_crawler example_frontier)) =
     [(''https://example.com/a'', example_row url_a 0 1 pending (1 / 4))]"
    unfolding pending_docs_def example_crawler_simps example_sorted_rows
    by (simp add: head_def example_cfg_simps example_frontier_def)
  have reqs: "fst (fetch_next_doc_batch example_ext (example_cfg 1)
      (example_crawler example_frontier)) = Inr [request_a]"
    by (simp add: fetch_next_doc_batch_def rows example_request)
  note post = fetch_next_doc_batch_postcondition
    [OF h, of "example_crawler example_frontier" example_ext]
  from post have "int (length (pending_docs (example_cfg 1)
      (frontier (example_crawler example_frontier)))) \<le> batch_size (example_cfg 1)"
    by (elim conjE)
  with h rows reqs show ?thesis by (intro conjI)
qed

text \<open>
  Claim C10. Computing the next batch is a pure read: the crawler object it leaves behind,
  and so the frontier, is the one it was given, and asking again gives the same batch.
\<close>

theorem fetch_next_doc_batch_pure:
  "snd (fetch_next_doc_batch ext cfg s) = s \<and>
   frontier (snd (fetch_next_doc_batch ext cfg s)) = frontier s \<and>
   fst (fetch_next_doc_batch ext cfg (snd (fetch_next_doc_batch ext cfg s))) =
     fst (fetch_next_doc_batch ext cfg s)"
  by (simp add: fetch_next_doc_batch_def)

section \<open>Classifying pages and running the loop\<close>

lemma add_links_add_all:
  "add_links ext cfg request response prio hrefs s =
     add_all ext
       (map (\<lambda>u. (u, prio, req_depth request + 1, req_root request))
          (List.map_filter (\<lambda>href. extract_url ext cfg href (resp_url response)) hrefs)) s"
  by (induction hrefs arbitrary: s) (simp_all add: map_filter_simps split: option.splits)

lemma distinct_update_doc:
  "distinct (map fst (frontier s)) \<Longrightarrow> distinct (map fst (frontier (update_doc ext i upd s)))"
  by (simp add: update_doc_def Let_def distinct_update)

lemma distinct_add_to_frontier:
  "distinct (map fst (frontier s)) \<Longrightarrow>
   distinct (map fst (frontier (add_to_frontier ext u p d rt s)))"
  by (simp add: add_to_frontier_def Let_def distinct_update distinct_update_doc
      split: option.splits)

lemma distinct_add_all:
  "distinct (map fst (frontier s)) \<Longrightarrow> distinct (map fst (frontier (add_all ext calls s)))"
  by (induction calls arbitrary: s) (auto simp: distinct_add_to_frontier)

lemma frontier_save_response: "frontier (save_response i c s) = frontier s"
  by (simp add: save_response_def)

lemma frontier_save_frontier: "frontier (save_frontier s) = frontier s"
  by (simp add: save_frontier_def)

lemma distinct_add_new_links:
  assumes "distinct (map fst (frontier s))"
  shows "distinct (map fst (frontier (add_new_links_to_frontier ext cfg req resp s)))"
  using assms
  by (simp add: add_new_links_to_frontier_def Let_def add_links_add_all distinct_add_all
      distinct_add_to_frontier distinct_update_doc)

lemma distinct_process_response:
  assumes "distinct (map fst (frontier s))"
  shows "distinct (map fst (frontier (process_response ext cfg req response s)))"
proof -
  have "distinct (map fst (frontier (save_response i c s)))" for i c
    using assms by (simp add: frontier_save_response)
  then show ?thesis
    using assms
    by (simp add: process_response_def distinct_update_doc distinct_add_new_links
        split: option.splits)
qed

lemma distinct_process_batch:
  "distinct (map fst (frontier s)) \<Longrightarrow>
   distinct (map fst (frontier (process_batch ext cfg pairs s)))"
  by (induction pairs arbitrary: s) (auto simp: distinct_process_response)

lemma update_doc_other:
  "j \<noteq> i \<Longrightarrow> map_of (frontier (update_doc ext i upd s)) j = map_of (frontier s) j"
  by (simp add: map_of_update_doc)

lemma add_new_links_other:
  assumes "map_of (frontier s) j = Some r" and "j \<noteq> doc_id req"
  shows "\<exists>r'. map_of (frontier (add_new_links_to_frontier ext cfg req resp s)) j = Some r' \<and>
           improved r r'"
proof -
  have upd: "map_of (frontier (update_doc ext (doc_id req) upd s)) j = Some r" for upd
    using assms by (simp add: update_doc_other)
  have step: "\<exists>r'. map_of (frontier (add_all ext calls s')) j = Some r' \<and> improved r r'"
    if "\<exists>r1. map_of (frontier s') j = Some r1 \<and> improved r r1" for s' calls
  proof -
    from that obtain r1 where r1: "map_of (frontier s') j = Some r1" and "improved r r1" by blast
    with add_all_present[OF r1, of ext calls] show ?thesis
      by (blast intro: improved_trans)
  qed
  show ?thesis
    unfolding add_new_links_to_frontier_def Let_def add_links_add_all
    using assms(1) upd add_to_frontier_present[OF upd]
    by (auto intro!: step simp: improved_refl)
qed

lemma process_response_other:
  assumes "map_of (frontier s) j = Some r" and "j \<noteq> doc_id req"
  shows "\<exists>r'. map_of (frontier (process_response ext cfg req response s)) j = Some r' \<and>
           improved r r'"
proof -
  have "map_of (frontier (save_response i c s)) j = Some r" for i c
    using assms(1) by (simp add: frontier_save_response)
  from add_new_links_other[OF this assms(2)] assms show ?thesis
    by (auto simp: process_response_def update_doc_other improved_refl split: option.splits)
qed

lemma process_batch_other:
  assumes "map_of (frontier s) j = Some r" and "j \<notin> doc_id ` fst ` set pairs"
  shows "\<exists>r'. map_of (frontier (process_batch ext cfg pairs s)) j = Some r' \<and> improved r r'"
  using assms
proof (induction pairs arbitrary: s r)
  case Nil
  then show ?case by (simp add: improved_refl)
next
  case (Cons pair pairs)
  obtain req response where pair: "pair = (req, response)" by (cases pair)
  with Cons.prems have ne: "j \<noteq> doc_id req" and rest: "j \<notin> doc_id ` fst ` set pairs"
    by auto
  from process_response_other[OF Cons.prems(1) ne, of ext cfg response]
  obtain r1 where r1: "map_of (frontier (process_response ext cfg req response s)) j = Some r1"
    and i1: "improved r r1" by blast
  from Cons.IH[OF r1 rest] i1 pair show ?case
    by (auto intro: improved_trans)
qed

lemma batch_doc_ids:
  assumes "fst (fetch_next_doc_batch ext cfg s) = Inr batch"
  shows "map doc_id batch = map fst (pending_docs cfg (frontier s))"
  using assms by (simp add: fetch_next_doc_batch_def make_requests_doc_ids)

lemma batch_distinct:
  assumes "distinct (map fst (frontier s))" and "fst (fetch_next_doc_batch ext cfg s) = Inr batch"
  shows "distinct (map doc_id batch)"
  using assms by (simp add: batch_doc_ids distinct_keys_pending_docs)

lemma batch_excludes:
  assumes "distinct (map fst (frontier s))" and "map_of (frontier s) j = Some r"
    and "status r \<noteq> Some pending" and "fst (fetch_next_doc_batch ext cfg s) = Inr batch"
  shows "j \<notin> doc_id ` set batch"
proof
  assume "j \<in> doc_id ` set batch"
  then have "j \<in> set (map doc_id batch)" by simp
  then have "j \<in> fst ` set (pending_docs cfg (frontier s))"
    by (simp add: batch_doc_ids[OF assms(4)])
  then obtain r2 where r2: "(j, r2) \<in> set (pending_docs cfg (frontier s))" by auto
  from pending_docs_eligible[OF r2] have "(j, r2) \<in> set (frontier s)" and "status r2 = Some pending"
    by simp_all
  with assms(1) have "map_of (frontier s) j = Some r2" by simp
  with assms(2,3) \<open>status r2 = Some pending\<close> show False by simp
qed

lemma retry_error: "retry n k net = Inl e \<Longrightarrow> e = RetryError"
  by (induction n arbitrary: k) (auto split: sum.splits)

lemma fetch_response_total: "\<exists>res. fetch_response net req = Inr res"
proof (cases "get_retrying (net req)")
  case (Inl e)
  then have "e = RetryError" unfolding get_retrying_def by (rule retry_error)
  with Inl show ?thesis by (simp add: fetch_response_def)
next
  case (Inr r)
  then show ?thesis by (simp add: fetch_response_def)
qed

lemma fetch_response_exhausted:
  assumes "isl (get_body (net req 1))" and "isl (get_body (net req 2))"
    and "isl (get_body (net req 3))"
  shows "fetch_response net req = Inr None"
proof -
  from assms obtain e1 e2 e3 where "get_body (net req (Suc 0)) = Inl e1"
    and "get_body (net req (Suc (Suc 0))) = Inl e2"
    and "get_body (net req (Suc (Suc (Suc 0)))) = Inl e3"
    by (auto simp: isl_def numeral_2_eq_2 numeral_3_eq_3)
  then have "get_retrying (net req) = Inl RetryError"
    by (simp add: get_retrying_def stop_after_attempt_def numeral_3_eq_3)
  then show ?thesis by (simp add: fetch_response_def)
qed

lemma gather_all2:
  "gather net batch = Inr resps \<Longrightarrow>
   list_all2 (\<lambda>q res. fetch_response net q = Inr res) batch resps"
proof (induction batch arbitrary: resps)
  case Nil
  then show ?case by simp
next
  case (Cons q batch)
  from Cons.prems obtain res rest where "fetch_response net q = Inr res"
    and rest: "gather net batch = Inr rest" and "resps = res # rest"
    by (auto split: sum.splits)
  with Cons.IH[OF rest] show ?case by simp
qed

lemma gather_total: "\<exists>resps. gather net batch = Inr resps"
proof (induction batch)
  case Nil
  then show ?case by simp
next
  case (Cons q batch)
  from fetch_response_total[of net q] obtain res where "fetch_response net q = Inr res" ..
  with Cons show ?case by auto
qed

lemma process_response_failed:
  "\<exists>r'. map_of (frontier (process_response ext cfg req None s)) (doc_id req) = Some r' \<and>
         status r' = Some failed"
  by (simp add: process_response_def map_of_update_doc set_cells_def no_update_def)

lemma batch_failed:
  assumes "list_all2 (\<lambda>q res. fetch_response net q = Inr res) batch resps"
    and "distinct (map doc_id batch)" and "req \<in> set batch"
    and "fetch_response net req = Inr None"
  shows "\<exists>r'. map_of (frontier (process_batch ext cfg (zip batch resps) s)) (doc_id req) = Some r' \<and>
           status r' = Some failed"
  using assms(1,2,3)
proof (induction arbitrary: s rule: list_all2_induct)
  case Nil
  then show ?case by simp
next
  case (Cons q batch res resps)
  show ?case
  proof (cases "q = req")
    case True
    with Cons.hyps(1) assms(4) have res: "res = None" by simp
    from process_response_failed[of ext cfg req s]
    obtain r1 where r1: "map_of (frontier (process_response ext cfg req None s)) (doc_id req) = Some r1"
      and f1: "status r1 = Some failed" by blast
    from Cons.prems(1) True have "doc_id req \<notin> doc_id ` set batch" by simp
    moreover have "fst ` set (zip batch resps) \<subseteq> set batch"
      by (auto dest: set_zip_leftD)
    ultimately have "doc_id req \<notin> doc_id ` fst ` set (zip batch resps)" by blast
    from process_batch_other[OF r1 this, of ext cfg] f1 True res show ?thesis
      by (auto simp: improved_status)
  next
    case False
    with Cons.prems have "req \<in> set batch" and "distinct (map doc_id batch)" by simp_all
    from Cons.IH[OF this(2) this(1)] show ?thesis by simp
  qed
qed

lemma run_loop_terminal:
  assumes "run_loop ext cfg nets s = Inr s'" and "distinct (map fst (frontier s))"
    and "map_of (frontier s) j = Some r" and "status r \<noteq> Some pending"
  shows "distinct (map fst (frontier s')) \<and>
         (\<exists>r'. map_of (frontier s') j = Some r' \<and> improved r r')"
  using assms
proof (induction nets arbitrary: s r)
  case Nil
  then show ?case by (simp add: improved_refl)
next
  case (Cons net nets)
  from Cons.prems(1) obtain batch where batch: "fst (fetch_next_doc_batch ext cfg s) = Inr batch"
    by (auto split: sum.splits)
  show ?case
  proof (cases "batch = []")
    case True
    with Cons.prems batch show ?thesis by (simp add: improved_refl)
  next
    case False
    with Cons.prems(1) batch obtain resps where resps: "gather net batch = Inr resps"
      and run: "run_loop ext cfg nets
         (save_frontier (process_batch ext cfg (zip batch resps) s)) = Inr s'"
      by (auto split: sum.splits)
    let ?s1 = "save_frontier (process_batch ext cfg (zip batch resps) s)"
    have "j \<notin> doc_id ` set batch"
      by (rule batch_excludes[OF Cons.prems(2,3,4) batch])
    moreover have "fst ` set (zip batch resps) \<subseteq> set batch"
      by (auto dest: set_zip_leftD)
    ultimately have "j \<notin> doc_id ` fst ` set (zip batch resps)" by blast
    from process_batch_other[OF Cons.prems(3) this, of ext cfg]
    obtain r1 where r1: "map_of (frontier ?s1) j = Some r1" and i1: "improved r r1"
      by (auto simp: frontier_save_frontier)
    have d1: "distinct (map fst (frontier ?s1))"
      using Cons.prems(2) by (simp add: frontier_save_frontier distinct_process_batch)
    from i1 Cons.prems(4) have "status r1 \<noteq> Some pending" by (simp add: improved_status)
    from Cons.IH[OF run d1 r1 this] i1 show ?thesis
      by (auto intro: improved_trans)
  qed
qed

lemma example_visited_batch:
  "fst (fetch_next_doc_batch example_ext (example_cfg 256) (example_crawler visited_frontier)) =
     Inr [request_b]"
proof -
  have "query_pending (example_cfg 256) visited_frontier =
      [(''https://other.org/b'', example_row url_b 0 1 pending (3 / 4))]"
    by (simp add: query_pending_def visited_frontier_def example_row_simps example_cfg_simps
        cell_lt_def)
  then have "pending_docs (example_cfg 256) visited_frontier =
      [(''https://other.org/b'', example_row url_b 0 1 pending (3 / 4))]"
    by (simp add: pending_docs_def sort_values_def head_def example_cfg_simps)
  moreover have "make_request example_ext
      (''https://other.org/b'', example_row url_b 0 1 pending (3 / 4)) = Inr request_b"
    by (simp add: make_request_def example_row_simps example_ext_simps str_url_b
        example_parse_def request_b_def)
  ultimately show ?thesis
    by (simp add: fetch_next_doc_batch_def example_crawler_simps)
qed

lemma example_failing_attempts: "isl (get_body (failing_net req k))"
  by (simp add: failing_net_def get_body_def)

lemma example_run:
  "run_loop example_ext (example_cfg 256) [failing_net] (example_crawler visited_frontier) =
     Inr (save_frontier (process_response example_ext (example_cfg 256) request_b None
            (example_crawler visited_frontier)))"
proof -
  have "fetch_response failing_net request_b = Inr None"
    by (rule fetch_response_exhausted) (rule example_failing_attempts)+
  then have "gather failing_net [request_b] = Inr [None]" by simp
  then show ?thesis by (simp add: example_visited_batch)
qed

lemma example_visited_distinct: "distinct (map fst (frontier (example_crawler visited_frontier)))"
  by (simp add: example_crawler_simps visited_frontier_def)

text \<open>
  Claim C7. Retry exhaustion. A fetch never lets an exception escape. If a request of the
  current batch fails on each of its three attempts (timeout, transport error or non-2xx
  status), its fetch returns none; then, after this round of the loop and after any
  number of further rounds, the record has status failed and the next batch does not
  contain its \<^verbatim>\<open>doc_id\<close>.
\<close>

theorem retry_exhaustion:
  assumes "distinct (map fst (frontier s))"
    and "fst (fetch_next_doc_batch ext cfg s) = Inr batch" and "req \<in> set batch"
    and "isl (get_body (net req 1))" and "isl (get_body (net req 2))"
    and "isl (get_body (net req 3))"
    and "run_loop ext cfg (net # nets) s = Inr s'"
  shows "fetch_response net req = Inr None \<and>
     (\<exists>r'. map_of (frontier s') (doc_id req) = Some r' \<and> status r' = Some failed) \<and>
     (fst (fetch_next_doc_batch ext cfg s') = Inr batch' \<longrightarrow> doc_id req \<notin> doc_id ` set batch') \<and>
     (\<exists>res. fetch_response net' req' = Inr res)"
proof -
  have none: "fetch_response net req = Inr None"
    by (rule fetch_response_exhausted[of net req, OF assms(4,5,6)])
  from assms(3) have "batch \<noteq> []" by auto
  with assms(2,7) obtain resps where resps: "gather net batch = Inr resps"
    and run: "run_loop ext cfg nets
       (save_frontier (process_batch ext cfg (zip batch resps) s)) = Inr s'"
    by (auto split: sum.splits)
  let ?s1 = "save_frontier (process_batch ext cfg (zip batch resps) s)"
  from batch_failed[OF gather_all2[OF resps] batch_distinct[OF assms(1,2)] assms(3) none, of ext cfg s]
  obtain r1 where r1: "map_of (frontier ?s1) (doc_id req) = Some r1"
    and f1: "status r1 = Some failed"
    by (auto simp: frontier_save_frontier)
  have d1: "distinct (map fst (frontier ?s1))"
    using assms(1) by (simp add: frontier_save_frontier distinct_process_batch)
  from f1 have np: "status r1 \<noteq> Some pending" by simp
  from run_loop_terminal[OF run d1 r1 np]
  obtain r' where d': "distinct (map fst (frontier s'))"
    and r': "map_of (frontier s') (doc_id req) = Some r'" and "improved r1 r'" by blast
  with f1 have f': "status r' = Some failed" by (simp add: improved_status)
  then have np': "status r' \<noteq> Some pending" by simp
  have "doc_id req \<notin> doc_id ` set batch'"
    if "fst (fetch_next_doc_batch ext cfg s') = Inr batch'"
    by (rule batch_excludes[OF d' r' np' that])
  with none r' f' fetch_response_total[of net' req'] show ?thesis by blast
qed

theorem retry_exhaustion_witness:
  "distinct (map fst (frontier (example_crawler visited_frontier))) \<and>
   fst (fetch_next_doc_batch example_ext (example_cfg 256) (example_crawler visited_frontier)) =
     Inr [request_b] \<and>
   isl (get_body (failing_net request_b 1)) \<and> isl (get_body (failing_net request_b 2)) \<and>
   isl (get_body (failing_net request_b 3)) \<and>
   fetch_response failing_net request_b = Inr None \<and>
   (\<exists>r'. map_of (frontier (save_frontier (process_response example_ext (example_cfg 256)
            request_b None (example_crawler visited_frontier)))) (doc_id request_b) = Some r' \<and>
         status r' = Some failed)"
proof -
  have mem: "request_b \<in> set [request_b]" by simp
  note fact = retry_exhaustion[OF example_visited_distinct example_visited_batch mem
      example_failing_attempts example_failing_attempts example_failing_attempts example_run]
  from fact have "fetch_response failing_net request_b = Inr None"
    and "\<exists>r'. map_of (frontier (save_frontier (process_response example_ext (example_cfg 256)
            request_b None (example_crawler visited_frontier)))) (doc_id request_b) = Some r' \<and>
         status r' = Some failed"
    by blast+
  with example_visited_distinct example_visited_batch example_failing_attempts
  show ?thesis by blast
qed

text \<open>
  Claim C1, as amended. \<^verbatim>\<open>add_to_frontier\<close> never changes the status of a record of the
  frontier, and \<^verbatim>\<open>update_doc\<close> leaves every status as it is when it is given no status.
  (\<^verbatim>\<open>update_doc\<close> given a status writes it whatever the record's status is.) The run loop
  gives \<^verbatim>\<open>update_doc\<close> a status only for the requests of the current batch, which are
  pending: from a frontier with unique \<^verbatim>\<open>doc_id\<close>s, over any number of rounds of the loop, a
  record that is completed or failed keeps its status.
\<close>

theorem terminal_status_stable:
  "(map_of (frontier s) i = Some r \<longrightarrow>
      (\<exists>r'. map_of (frontier (add_to_frontier ext u p d rt s)) i = Some r' \<and>
            status r' = status r)) \<and>
   (map_of (frontier s) i = Some r \<and> upd_status upd = None \<longrightarrow>
      (\<exists>r'. map_of (frontier (update_doc ext j upd s)) i = Some r' \<and> status r' = status r)) \<and>
   (distinct (map fst (frontier s)) \<and> map_of (frontier s) i = Some r \<and>
    (status r = Some completed \<or> status r = Some failed) \<and>
    run_loop ext cfg nets s = Inr s' \<longrightarrow>
      (\<exists>r'. map_of (frontier s') i = Some r' \<and> status r' = status r))"
proof (intro conjI impI)
  assume "map_of (frontier s) i = Some r"
  from add_to_frontier_present[OF this, of ext u p d rt]
  show "\<exists>r'. map_of (frontier (add_to_frontier ext u p d rt s)) i = Some r' \<and>
            status r' = status r"
    by (auto simp: improved_status)
next
  assume "map_of (frontier s) i = Some r \<and> upd_status upd = None"
  then show "\<exists>r'. map_of (frontier (update_doc ext j upd s)) i = Some r' \<and> status r' = status r"
    by (auto simp: map_of_update_doc set_cells_def)
next
  assume a: "distinct (map fst (frontier s)) \<and> map_of (frontier s) i = Some r \<and>
    (status r = Some completed \<or> status r = Some failed) \<and>
    run_loop ext cfg nets s = Inr s'"
  then have np: "status r \<noteq> Some pending" by auto
  from a have run: "run_loop ext cfg nets s = Inr s'" and d: "distinct (map fst (frontier s))"
    and r: "map_of (frontier s) i = Some r" by simp_all
  from run_loop_terminal[OF run d r np]
  show "\<exists>r'. map_of (frontier s') i = Some r' \<and> status r' = status r"
    by (auto simp: improved_status)
qed

theorem terminal_status_stable_witness:
  "map_of (frontier (example_crawler visited_frontier)) ''https://example.com/a'' =
     Some (example_row url_a 0 1 completed (1 / 4)) \<and>
   distinct (map fst (frontier (example_crawler visited_frontier))) \<and>
   (\<exists>r'. map_of (frontier (add_to_frontier example_ext url_a high 0 None
            (example_crawler visited_frontier))) ''https://example.com/a'' = Some r' \<and>
         status r' = Some completed) \<and>
   (\<exists>r'. map_of (frontier (update_doc example_ext ''https://example.com/a''
            (no_update\<lparr>upd_features_tubingen := Some True\<rparr>)
            (example_crawler visited_frontier))) ''https://example.com/a'' = Some r' \<and>
         status r' = Some completed) \<and>
   (\<exists>r'. map_of (frontier (save_frontier (process_response example_ext (example_cfg 256)
            request_b None (example_crawler visited_frontier)))) ''https://example.com/a'' = Some r' \<and>
         status r' = Some completed)"
proof -
  have look: "map_of (frontier (example_crawler visited_frontier)) ''https://example.com/a'' =
     Some (example_row url_a 0 1 completed (1 / 4))"
    by (simp add: example_crawler_simps visited_frontier_def)
  have st: "status (example_row url_a 0 1 completed (1 / 4)) = Some completed"
    by (simp add: example_row_simps)
  have upd: "upd_status (no_update\<lparr>upd_features_tubingen := Some True\<rparr>) = None"
    by (simp add: no_update_def)
  note fact = terminal_status_stable
    [of "example_crawler visited_frontier" "''https://example.com/a''"
        "example_row url_a 0 1 completed (1 / 4)" example_ext url_a high 0 None
        "no_update\<lparr>upd_features_tubingen := Some True\<rparr>" "''https://example.com/a''"
        "example_cfg 256" "[failing_net]"
        "save_frontier (process_response example_ext (example_cfg 256) request_b None
            (example_crawler visited_frontier))"]
  from fact look st upd example_visited_distinct example_run show ?thesis
    by simp
qed

theorem update_doc_status_counterexample:
  "map_of (frontier (example_crawler visited_frontier)) ''https://example.com/a'' =
     Some (example_row url_a 0 1 completed (1 / 4)) \<and>
   status (example_row url_a 0 1 completed (1 / 4)) = Some completed \<and>
   map_of (frontier (update_doc example_ext ''https://example.com/a''
       (no_update\<lparr>upd_status := Some pending\<rparr>) (example_crawler visited_frontier)))
     ''https://example.com/a'' =
     Some ((example_row url_a 0 1 completed (1 / 4))\<lparr>status := Some pending, updated := Some 0\<rparr>)"
  by (simp add: map_of_update_doc example_crawler_simps visited_frontier_def set_cells_def
      no_update_def example_ext_simps example_row_def)

lemma add_all_append: "add_all ext (xs @ ys) s = add_all ext ys (add_all ext xs s)"
  by (induction xs arbitrary: s) auto

lemma improved_cells:
  assumes "improved r r'"
  shows "features_tubingen r' = features_tubingen r \<and> features_english r' = features_english r \<and>
     root_id r' = root_id r \<and> status r' = status r"
  using assms unfolding improved_def by (cases r, cases r') simp

lemma add_to_frontier_absent:
  assumes "map_of (frontier s) (create_id_for_url ext u) = None"
  shows "\<exists>row. map_of (frontier (add_to_frontier ext u p d rt s)) (create_id_for_url ext u) =
       Some row \<and>
     status row = Some pending \<and> priority row = Some (Priority_value p) \<and> depth row = Some d \<and>
     root_id row = rt"
  using assms by (simp add: add_to_frontier_def Let_def AList.update_conv')

lemma reads_save_response: "reads (save_response i c s) = reads s"
  by (simp add: save_response_def)

lemma example_is_html: "is_html example_ext (example_response c)"
  by (simp add: is_html_def example_response_def example_ext_simps)

lemma example_not_too_large:
  "\<not> html_too_large (example_cfg 256) (content (example_response ''berlin''))"
  "\<not> html_too_large (example_cfg 256) (content (example_response ''german''))"
  by (simp_all add: html_too_large_def example_response_def example_cfg_simps)

lemma example_trees:
  "parse_html example_ext (content (example_response ''berlin'')) =
     \<lparr>text_content = ''Berlin'', html_lang = [''en''], a_href = [''https://other.org/b'']\<rparr>"
  "parse_html example_ext (content (example_response ''german'')) =
     \<lparr>text_content = ''Tuebingen'', html_lang = [''de''], a_href = [''https://other.org/b'']\<rparr>"
  by (simp_all add: parse_html_def example_response_def example_ext_simps example_html_def)

lemma example_lookup_a:
  "map_of (frontier (example_crawler example_frontier)) (doc_id request_a) =
     Some (example_row url_a 0 1 pending (1 / 4))"
  by (simp add: example_crawler_simps example_frontier_def request_a_def)

text \<open>
  Claim C5. Dead-end pruning. When the response for the request of a frontier record is
  HTML of admissible size and its text has no match for the relevance pattern, link
  discovery leaves the crawler as it is, and processing the response adds no row to the
  frontier: the rows keep their labels and order, the record of the request becomes
  completed (with its URL and domain set from the response), and no other row changes.
\<close>

theorem dead_end_pruning:
  assumes "map_of (frontier s) (doc_id req) = Some r"
    and "is_html ext resp" and "\<not> html_too_large cfg (content resp)"
    and "\<not> TUBINGEN_PATTERN_search ext (text_content (parse_html ext (content resp)))"
  shows "add_new_links_to_frontier ext cfg req resp s = s \<and>
     map fst (frontier (process_response ext cfg req (Some resp) s)) = map fst (frontier s) \<and>
     map_of (frontier (process_response ext cfg req (Some resp) s)) =
       (map_of (frontier s))(doc_id req \<mapsto>
          r\<lparr>status := Some completed, url := Some (str_URL (resp_url resp)),
            domain := Some (host (resp_url resp)),
            updated := Some (Timestamp_now ext (reads s))\<rparr>) \<and>
     (\<exists>r'. map_of (frontier (process_response ext cfg req (Some resp) s)) (doc_id req) = Some r' \<and>
           status r' = Some completed)"
proof -
  have nolinks: "add_new_links_to_frontier ext cfg req resp s' = s'" for s'
    using assms(4) by (simp add: add_new_links_to_frontier_def)
  let ?row = "r\<lparr>status := Some completed, url := Some (str_URL (resp_url resp)),
            domain := Some (host (resp_url resp)),
            updated := Some (Timestamp_now ext (reads s))\<rparr>"
  have fr: "frontier (process_response ext cfg req (Some resp) s) =
      AList.update (doc_id req) ?row (frontier s)"
    using assms(1,2,3)
    by (cases r)
      (simp add: process_response_def nolinks update_doc_def Let_def frontier_save_response
        reads_save_response set_cells_def no_update_def)
  have keys: "map fst (frontier (process_response ext cfg req (Some resp) s)) = map fst (frontier s)"
    unfolding fr by (rule update_present_keys[OF assms(1)])
  have look: "map_of (frontier (process_response ext cfg req (Some resp) s)) =
       (map_of (frontier s))(doc_id req \<mapsto> ?row)"
    unfolding fr by (rule AList.update_conv')
  have "\<exists>r'. map_of (frontier (process_response ext cfg req (Some resp) s)) (doc_id req) = Some r' \<and>
           status r' = Some completed"
    unfolding look by simp
  with nolinks keys look show ?thesis by blast
qed

theorem dead_end_pruning_witness:
  "map_of (frontier (example_crawler example_frontier)) (doc_id request_a) =
     Some (example_row url_a 0 1 pending (1 / 4)) \<and>
   is_html example_ext (example_response ''berlin'') \<and>
   \<not> html_too_large (example_cfg 256) (content (example_response ''berlin'')) \<and>
   \<not> TUBINGEN_PATTERN_search example_ext
       (text_content (parse_html example_ext (content (example_response ''berlin'')))) \<and>
   map fst (frontier (process_response example_ext (example_cfg 256) request_a
       (Some (example_response ''berlin'')) (example_crawler example_frontier))) =
     [''https://example.com/a'', ''https://other.org/b''] \<and>
   (\<exists>r'. map_of (frontier (process_response example_ext (example_cfg 256) request_a
       (Some (example_response ''berlin'')) (example_crawler example_frontier)))
       (doc_id request_a) = Some r' \<and> status r' = Some completed)"
proof -
  have nomatch: "\<not> TUBINGEN_PATTERN_search example_ext
       (text_content (parse_html example_ext (content (example_response ''berlin''))))"
    by (simp add: example_trees example_ext_simps)
  note fact = dead_end_pruning[OF example_lookup_a example_is_html example_not_too_large(1) nomatch]
  have keys: "map fst (frontier (example_crawler example_frontier)) =
     [''https://example.com/a'', ''https://other.org/b'']"
    by (simp add: example_crawler_simps example_frontier_def)
  from fact have "map fst (frontier (process_response example_ext (example_cfg 256) request_a
       (Some (example_response ''berlin'')) (example_crawler example_frontier))) =
     map fst (frontier (example_crawler example_frontier))"
    and "\<exists>r'. map_of (frontier (process_response example_ext (example_cfg 256) request_a
       (Some (example_response ''berlin'')) (example_crawler example_frontier)))
       (doc_id request_a) = Some r' \<and> status r' = Some completed"
    by blast+
  with keys example_lookup_a example_is_html example_not_too_large(1) nomatch
  show ?thesis by simp
qed

lemma add_to_frontier_enqueued:
  "\<exists>row. map_of (frontier (add_to_frontier ext u p d rt s)) (create_id_for_url ext u) = Some row \<and>
     (map_of (frontier s) (create_id_for_url ext u) = None \<longrightarrow>
        status row = Some pending \<and> priority row = Some (Priority_value p) \<and>
        depth row = Some d \<and> root_id row = rt)"
proof (cases "map_of (frontier s) (create_id_for_url ext u)")
  case None
  from add_to_frontier_absent[OF None, of p d rt] None show ?thesis by simp
next
  case (Some r)
  from add_to_frontier_present[OF Some, of ext u p d rt] Some show ?thesis by auto
qed

text \<open>
  Claim C6. The non-English branch. When the page of a frontier record matches the
  relevance pattern and none of its language attributes matches the English pattern,
  link discovery sets \<^verbatim>\<open>features_tubingen\<close> of the record and then makes exactly these
  \<^verbatim>\<open>add_to_frontier\<close> calls, in order: one for the English variant of the response URL (same
  scheme, user info, host and port, path \<^verbatim>\<open>/en\<close>, no query, no fragment) at priority high,
  if and only if that URL is valid; and one at priority low for every link that
  \<^verbatim>\<open>extract_url\<close> accepts; all at depth \<^verbatim>\<open>request.depth + 1\<close> with the root of the request.
  Afterwards the record has \<^verbatim>\<open>features_tubingen = True\<close> and its \<^verbatim>\<open>features_english\<close> and
  status are as before, and a valid English variant is in the frontier (when it was not
  there before: pending, with the request's root, priority at least high and depth at
  most \<^verbatim>\<open>request.depth + 1\<close>).
\<close>

theorem non_english_branch:
  assumes "map_of (frontier s) (doc_id req) = Some r"
    and "TUBINGEN_PATTERN_search ext (text_content (parse_html ext (content resp)))"
    and "\<not> is_english ext (parse_html ext (content resp))"
  shows "add_new_links_to_frontier ext cfg req resp s =
       add_all ext
         ((if is_url_valid cfg (english_variant (resp_url resp))
           then [(english_variant (resp_url resp), high, req_depth req + 1, req_root req)]
           else []) @
          map (\<lambda>u. (u, low, req_depth req + 1, req_root req))
            (List.map_filter (\<lambda>href. extract_url ext cfg href (resp_url resp))
               (a_href (parse_html ext (content resp)))))
         (update_doc ext (doc_id req) (no_update\<lparr>upd_features_tubingen := Some True\<rparr>) s) \<and>
     (\<exists>r'. map_of (frontier (add_new_links_to_frontier ext cfg req resp s)) (doc_id req) = Some r' \<and>
           features_tubingen r' = Some True \<and> features_english r' = features_english r \<and>
           status r' = status r) \<and>
     (is_url_valid cfg (english_variant (resp_url resp)) \<longrightarrow>
        (\<exists>row. map_of (frontier (add_new_links_to_frontier ext cfg req resp s))
                 (create_id_for_url ext (english_variant (resp_url resp))) = Some row \<and>
           (map_of (frontier s) (create_id_for_url ext (english_variant (resp_url resp))) = None \<longrightarrow>
              status row = Some pending \<and> root_id row = req_root req \<and>
              cell_le (Some 1) (priority row) \<and> cell_le (depth row) (Some (req_depth req + 1))))) \<and>
     scheme (english_variant (resp_url resp)) = scheme (resp_url resp) \<and>
     userinfo (english_variant (resp_url resp)) = userinfo (resp_url resp) \<and>
     host (english_variant (resp_url resp)) = host (resp_url resp) \<and>
     port (english_variant (resp_url resp)) = port (resp_url resp) \<and>
     path (english_variant (resp_url resp)) = ''/en'' \<and>
     query (english_variant (resp_url resp)) = None \<and>
     fragment (english_variant (resp_url resp)) = None"
proof -
  let ?en = "english_variant (resp_url resp)"
  let ?s1 = "update_doc ext (doc_id req) (no_update\<lparr>upd_features_tubingen := Some True\<rparr>) s"
  let ?links = "map (\<lambda>u. (u, low, req_depth req + 1, req_root req))
            (List.map_filter (\<lambda>href. extract_url ext cfg href (resp_url resp))
               (a_href (parse_html ext (content resp))))"
  let ?s2 = "if is_url_valid cfg ?en
     then add_to_frontier ext ?en high (req_depth req + 1) (req_root req) ?s1 else ?s1"
  have calls: "add_new_links_to_frontier ext cfg req resp s =
       add_all ext
         ((if is_url_valid cfg ?en then [(?en, high, req_depth req + 1, req_root req)] else []) @
          ?links) ?s1"
    using assms(2,3)
    by (simp add: add_new_links_to_frontier_def Let_def add_links_add_all add_all_append
        english_variant_def)
  have final: "add_new_links_to_frontier ext cfg req resp s = add_all ext ?links ?s2"
    unfolding calls by (simp add: add_all_append)
  \<comment> \<open>the record of the request\<close>
  let ?r1 = "set_cells (no_update\<lparr>upd_features_tubingen := Some True\<rparr>)
      (Timestamp_now ext (reads s)) r"
  have r1: "map_of (frontier ?s1) (doc_id req) = Some ?r1"
    using assms(1) by (simp add: map_of_update_doc)
  have cells1: "features_tubingen ?r1 = Some True \<and> features_english ?r1 = features_english r \<and>
      status ?r1 = status r"
    by (simp add: set_cells_def no_update_def)
  have "\<exists>r2. map_of (frontier ?s2) (doc_id req) = Some r2 \<and> improved ?r1 r2"
    using r1 add_to_frontier_present[OF r1, of ext ?en high "req_depth req + 1" "req_root req"]
    by (auto simp: improved_refl)
  then obtain r2 where r2: "map_of (frontier ?s2) (doc_id req) = Some r2"
    and i2: "improved ?r1 r2" by blast
  from add_all_present[OF r2, of ext ?links] obtain r' where
    r': "map_of (frontier (add_all ext ?links ?s2)) (doc_id req) = Some r'"
    and i': "improved r2 r'" by blast
  from improved_cells[OF improved_trans[OF i2 i']] cells1
  have request_row: "\<exists>r'. map_of (frontier (add_new_links_to_frontier ext cfg req resp s)) (doc_id req) =
        Some r' \<and>
      features_tubingen r' = Some True \<and> features_english r' = features_english r \<and>
      status r' = status r"
    unfolding final using r' by auto
  \<comment> \<open>the English variant\<close>
  have variant: "\<exists>row. map_of (frontier (add_new_links_to_frontier ext cfg req resp s))
                 (create_id_for_url ext ?en) = Some row \<and>
           (map_of (frontier s) (create_id_for_url ext ?en) = None \<longrightarrow>
              status row = Some pending \<and> root_id row = req_root req \<and>
              cell_le (Some 1) (priority row) \<and> cell_le (depth row) (Some (req_depth req + 1)))"
    if valid: "is_url_valid cfg ?en"
  proof -
    from add_to_frontier_enqueued[of ext ?en high "req_depth req + 1" "req_root req" ?s1] valid
    obtain row2 where row2: "map_of (frontier ?s2) (create_id_for_url ext ?en) = Some row2"
      and new2: "map_of (frontier ?s1) (create_id_for_url ext ?en) = None \<longrightarrow>
        status row2 = Some pending \<and> priority row2 = Some 1 \<and>
        depth row2 = Some (req_depth req + 1) \<and> root_id row2 = req_root req"
      by auto
    from add_all_present[OF row2, of ext ?links] obtain row where
      row: "map_of (frontier (add_all ext ?links ?s2)) (create_id_for_url ext ?en) = Some row"
      and irow: "improved row2 row" by blast
    have props: "map_of (frontier s) (create_id_for_url ext ?en) = None \<longrightarrow>
        status row = Some pending \<and> root_id row = req_root req \<and>
        cell_le (Some 1) (priority row) \<and> cell_le (depth row) (Some (req_depth req + 1))"
    proof (rule impI)
      assume absent: "map_of (frontier s) (create_id_for_url ext ?en) = None"
      from absent assms(1) have "create_id_for_url ext ?en \<noteq> doc_id req" by auto
      with absent have "map_of (frontier ?s1) (create_id_for_url ext ?en) = None"
        by (simp add: update_doc_other)
      with new2 have "status row2 = Some pending" "priority row2 = Some 1"
        "depth row2 = Some (req_depth req + 1)" "root_id row2 = req_root req" by simp_all
      with improved_cells[OF irow] irow
      show "status row = Some pending \<and> root_id row = req_root req \<and>
        cell_le (Some 1) (priority row) \<and> cell_le (depth row) (Some (req_depth req + 1))"
        by (simp add: improved_def)
    qed
    show ?thesis
    proof (intro exI conjI)
      show "map_of (frontier (add_new_links_to_frontier ext cfg req resp s))
          (create_id_for_url ext ?en) = Some row"
        unfolding final by (rule row)
      show "map_of (frontier s) (create_id_for_url ext ?en) = None \<longrightarrow>
        status row = Some pending \<and> root_id row = req_root req \<and>
        cell_le (Some 1) (priority row) \<and> cell_le (depth row) (Some (req_depth req + 1))"
        by (rule props)
    qed
  qed
  then have v: "is_url_valid cfg ?en \<longrightarrow>
        (\<exists>row. map_of (frontier (add_new_links_to_frontier ext cfg req resp s))
                 (create_id_for_url ext ?en) = Some row \<and>
           (map_of (frontier s) (create_id_for_url ext ?en) = None \<longrightarrow>
              status row = Some pending \<and> root_id row = req_root req \<and>
              cell_le (Some 1) (priority row) \<and> cell_le (depth row) (Some (req_depth req + 1))))"
    by (rule impI)
  have comps: "scheme ?en = scheme (resp_url resp) \<and> userinfo ?en = userinfo (resp_url resp) \<and>
     host ?en = host (resp_url resp) \<and> port ?en = port (resp_url resp) \<and> path ?en = ''/en'' \<and>
     query ?en = None \<and> fragment ?en = None"
    by (simp add: english_variant_def)
  show ?thesis
    by (rule conjI[OF calls conjI[OF request_row conjI[OF v comps]]])
qed

lemma example_german_page:
  "TUBINGEN_PATTERN_search example_ext
     (text_content (parse_html example_ext (content (example_response ''german''))))"
  "\<not> is_english example_ext (parse_html example_ext (content (example_response ''german'')))"
  by (simp_all add: example_trees example_ext_simps is_english_def)

lemma example_english_variant:
  "is_url_valid (example_cfg 256) (english_variant (resp_url (example_response ''german'')))"
  "create_id_for_url example_ext (english_variant (resp_url (example_response ''german''))) =
     ''https://example.com/en''"
  by (simp_all add: is_url_valid_def is_absolute_url_def english_variant_def example_response_def
      url_a_def example_url_def example_cfg_simps create_id_for_url_def example_ext_simps
      str_URL_def authority_def)

theorem non_english_branch_witness:
  "map_of (frontier (example_crawler example_frontier)) (doc_id request_a) =
     Some (example_row url_a 0 1 pending (1 / 4)) \<and>
   TUBINGEN_PATTERN_search example_ext
     (text_content (parse_html example_ext (content (example_response ''german'')))) \<and>
   \<not> is_english example_ext (parse_html example_ext (content (example_response ''german''))) \<and>
   is_url_valid (example_cfg 256) (english_variant (resp_url (example_response ''german''))) \<and>
   map_of (frontier (example_crawler example_frontier)) ''https://example.com/en'' = None \<and>
   (\<exists>r'. map_of (frontier (add_new_links_to_frontier example_ext (example_cfg 256) request_a
             (example_response ''german'') (example_crawler example_frontier)))
           (doc_id request_a) = Some r' \<and>
         features_tubingen r' = Some True \<and> features_english r' = Some False \<and>
         status r' = Some pending) \<and>
   (\<exists>row. map_of (frontier (add_new_links_to_frontier example_ext (example_cfg 256) request_a
             (example_response ''german'') (example_crawler example_frontier)))
           ''https://example.com/en'' = Some row \<and>
         status row = Some pending \<and> root_id row = req_root request_a \<and>
         cell_le (Some 1) (priority row) \<and> cell_le (depth row) (Some (req_depth request_a + 1)))"
proof -
  have absent: "map_of (frontier (example_crawler example_frontier)) ''https://example.com/en'' = None"
    by (simp add: example_crawler_simps example_frontier_def)
  note fact = non_english_branch[OF example_lookup_a example_german_page, of "example_cfg 256"]
  from fact have "\<exists>r'. map_of (frontier (add_new_links_to_frontier example_ext (example_cfg 256)
             request_a (example_response ''german'') (example_crawler example_frontier)))
           (doc_id request_a) = Some r' \<and>
         features_tubingen r' = Some True \<and>
         features_english r' = features_english (example_row url_a 0 1 pending (1 / 4)) \<and>
         status r' = status (example_row url_a 0 1 pending (1 / 4))"
    by (elim conjE)
  then have first: "\<exists>r'. map_of (frontier (add_new_links_to_frontier example_ext (example_cfg 256)
             request_a (example_response ''german'') (example_crawler example_frontier)))
           (doc_id request_a) = Some r' \<and>
         features_tubingen r' = Some True \<and> features_english r' = Some False \<and>
         status r' = Some pending"
    by (simp add: example_row_simps)
  from fact have "is_url_valid (example_cfg 256)
        (english_variant (resp_url (example_response ''german''))) \<longrightarrow>
     (\<exists>row. map_of (frontier (add_new_links_to_frontier example_ext (example_cfg 256) request_a
             (example_response ''german'') (example_crawler example_frontier)))
           (create_id_for_url example_ext (english_variant (resp_url (example_response ''german'')))) =
           Some row \<and>
        (map_of (frontier (example_crawler example_frontier))
           (create_id_for_url example_ext (english_variant (resp_url (example_response ''german'')))) =
           None \<longrightarrow>
         status row = Some pending \<and> root_id row = req_root request_a \<and>
         cell_le (Some 1) (priority row) \<and> cell_le (depth row) (Some (req_depth request_a + 1))))"
    by (elim conjE)
  with example_english_variant absent
  have second: "\<exists>row. map_of (frontier (add_new_links_to_frontier example_ext (example_cfg 256)
             request_a (example_response ''german'') (example_crawler example_frontier)))
           ''https://example.com/en'' = Some row \<and>
         status row = Some pending \<and> root_id row = req_root request_a \<and>
         cell_le (Some 1) (priority row) \<and> cell_le (depth row) (Some (req_depth request_a + 1))"
    by simp
  show ?thesis
    by (rule conjI[OF example_lookup_a conjI[OF example_german_page(1)
          conjI[OF example_german_page(2) conjI[OF example_english_variant(1)
          conjI[OF absent conjI[OF first second]]]]]])
qed

end
